theory Spec2Isabelle
  imports Main "HOL-Library.AList" "HOL-Library.Sublist"
begin

section \<open>JavaScript strings\<close>

text \<open>
  A JavaScript string is a sequence of UTF-16 code units.  A code unit is modelled by its
  number (a natural number below 65536); every function below compares code units only
  for equality or membership in a fixed set, so no arithmetic on them can overflow.
  \<open>js\<close> turns an ASCII literal of the source into that representation.
\<close>

type_synonym code_unit = nat
type_synonym js_string = "code_unit list"

definition js :: "string \<Rightarrow> js_string" where
  "js s = map of_char s"

text \<open>
  \<open>String.prototype.trim\<close> removes WhiteSpace and LineTerminator code points from both ends:
  TAB, LF, VT, FF, CR, SP, NBSP, U+1680, U+2000..U+200A, U+2028, U+2029, U+202F, U+205F,
  U+3000 and U+FEFF.
\<close>

definition is_white_space :: "code_unit \<Rightarrow> bool" where
  "is_white_space c \<longleftrightarrow>
     c = 9 \<or> c = 10 \<or> c = 11 \<or> c = 12 \<or> c = 13 \<or> c = 32 \<or> c = 160 \<or> c = 5760 \<or>
     (8192 \<le> c \<and> c \<le> 8202) \<or> c = 8232 \<or> c = 8233 \<or> c = 8239 \<or> c = 8287 \<or>
     c = 12288 \<or> c = 65279"

definition trim :: "js_string \<Rightarrow> js_string" where
  "trim s = rev (dropWhile is_white_space (rev (dropWhile is_white_space s)))"

text \<open>\<open>s.startsWith(" ")\<close>, \<open>s.includes(":")\<close> and \<open>s.indexOf(":")\<close> for a one-unit argument.\<close>

definition startsWith :: "js_string \<Rightarrow> code_unit \<Rightarrow> bool" where
  "startsWith s c = (case s of [] \<Rightarrow> False | x # _ \<Rightarrow> x = c)"

definition includes_unit :: "js_string \<Rightarrow> code_unit \<Rightarrow> bool" where
  "includes_unit s c \<longleftrightarrow> c \<in> set s"

definition indexOf :: "js_string \<Rightarrow> code_unit \<Rightarrow> int" where
  "indexOf s c = (if c \<in> set s then int (length (takeWhile (\<lambda>x. x \<noteq> c) s)) else - 1)"

text \<open>
  \<open>s.substring(a, b)\<close> clamps both indices to \<open>0 .. length\<close> and swaps them when \<open>a > b\<close>;
  \<open>s.substring(a)\<close> runs to the end of the string.
\<close>

definition substring :: "js_string \<Rightarrow> int \<Rightarrow> int \<Rightarrow> js_string" where
  "substring s a b =
     (let n = int (length s);
          a' = min (max a 0) n;
          b' = min (max b 0) n;
          lo = min a' b';
          hi = max a' b'
      in take (nat hi - nat lo) (drop (nat lo) s))"

definition substring_from :: "js_string \<Rightarrow> int \<Rightarrow> js_string" where
  "substring_from s a = substring s a (int (length s))"

text \<open>
  \<open>s.split(sep)\<close> for a one-unit separator: the pieces between the occurrences of
  \<open>sep\<close>; the result is never empty (\<open>"".split(",")\<close> is \<open>[""]\<close>).
\<close>

fun split_on :: "code_unit \<Rightarrow> js_string \<Rightarrow> js_string list" where
  "split_on sep [] = [[]]"
| "split_on sep (c # cs) =
     (if c = sep then [] # split_on sep cs
      else (case split_on sep cs of
              [] \<Rightarrow> [[c]]
            | l # ls \<Rightarrow> (c # l) # ls))"

text \<open>
  \<open>content.split(/\r?\n/)\<close>: a line ends at LF, and a CR directly before that LF belongs
  to the separator.  A CR not followed by LF stays in the line.
\<close>

fun split_lines :: "js_string \<Rightarrow> js_string list" where
  "split_lines [] = [[]]"
| "split_lines [c] = (if c = 10 then [[], []] else [[c]])"
| "split_lines (c # d # cs) =
     (if c = 10 then [] # split_lines (d # cs)
      else if c = 13 \<and> d = 10 then [] # split_lines cs
      else (case split_lines (d # cs) of
              [] \<Rightarrow> [[c]]
            | l # ls \<Rightarrow> (c # l) # ls))"

text \<open>\<open>xs[i]\<close> on an array: \<open>undefined\<close> (here \<open>None\<close>) out of range.\<close>

definition at_index :: "'a list \<Rightarrow> nat \<Rightarrow> 'a option" where
  "at_index xs i = (if i < length xs then Some (xs ! i) else None)"

text \<open>
  Truthiness of a value of type \<open>string | undefined\<close>: \<open>undefined\<close> and the empty string
  are falsy.  \<open>a || b\<close> is \<open>a\<close> when \<open>a\<close> is truthy and \<open>b\<close> otherwise.
\<close>

definition truthy :: "js_string option \<Rightarrow> bool" where
  "truthy v = (case v of None \<Rightarrow> False | Some s \<Rightarrow> s \<noteq> [])"

definition or_else :: "js_string option \<Rightarrow> js_string option \<Rightarrow> js_string option" where
  "or_else a b = (if truthy a then a else b)"

definition or_default :: "js_string option \<Rightarrow> js_string \<Rightarrow> js_string" where
  "or_default a d = (case a of None \<Rightarrow> d | Some s \<Rightarrow> if s \<noteq> [] then s else d)"

text \<open>
  The template \<open>`${i}`\<close> for a non-negative integer below \<open>10^21\<close>: its decimal digits.
  (The loop counter of \<open>parseMIDletEntries\<close> cannot pass the number of keys of the
  manifest, which is bounded by the length of a string.)
\<close>

fun show_nat :: "nat \<Rightarrow> js_string" where
  "show_nat n = (if n < 10 then [48 + n] else show_nat (n div 10) @ [48 + n mod 10])"

declare show_nat.simps [simp del]

text \<open>
  \<open>name.replace(".jar", "")\<close> with a string pattern replaces the first occurrence only.
\<close>

fun replace_first :: "js_string \<Rightarrow> js_string \<Rightarrow> js_string \<Rightarrow> js_string" where
  "replace_first pat rep [] = (if pat = [] then rep else [])"
| "replace_first pat rep (c # cs) =
     (if prefix pat (c # cs) then rep @ drop (length pat) (c # cs)
      else c # replace_first pat rep cs)"

text \<open>
  \<open>parseInt(s, 10)\<close>: leading white space is skipped, one sign is read, then the longest
  run of decimal digits; no digit gives \<open>NaN\<close>.  The result is the integer the digits
  denote, which is the exact JavaScript number up to \<open>2^53\<close> (beyond that JavaScript rounds
  to the nearest double; screen sizes are far below).
\<close>

datatype js_number = NaN | Num int

definition is_digit :: "code_unit \<Rightarrow> bool" where
  "is_digit c \<longleftrightarrow> 48 \<le> c \<and> c \<le> 57"

definition digits_value :: "js_string \<Rightarrow> int" where
  "digits_value ds = foldl (\<lambda>acc d. 10 * acc + int (d - 48)) 0 ds"

definition parseInt :: "js_string \<Rightarrow> js_number" where
  "parseInt s =
     (let t = dropWhile is_white_space s;
          neg = startsWith t 45;
          u = (if startsWith t 45 \<or> startsWith t 43 then tl t else t);
          z = takeWhile is_digit u
      in if z = [] then NaN
         else Num ((if neg then - 1 else 1) * digits_value z))"

section \<open>The manifest parser (src/utils/jarParser.ts)\<close>

text \<open>
  \<open>Record<string, string>\<close> is a plain object.  Its own properties are kept as an
  association list in insertion order.  \<open>obj[k] = v\<close> replaces the value of an existing
  key in place and appends a new key; the key \<open>__proto__\<close> is the accessor inherited from
  \<open>Object.prototype\<close>, whose setter ignores a string, so that assignment stores nothing.
  \<open>obj[k]\<close> is read here only at the keys the parser looks up (\<open>MIDlet-...\<close>,
  \<open>Nokia-MIDlet-Canvas-Size\<close>), none of which is inherited, so a read is an own-property
  lookup with \<open>undefined\<close> as \<open>None\<close>.
\<close>

type_synonym js_object = "(js_string \<times> js_string) list"

definition obj_get :: "js_object \<Rightarrow> js_string \<Rightarrow> js_string option" where
  "obj_get obj k = map_of obj k"

definition obj_set :: "js_object \<Rightarrow> js_string \<Rightarrow> js_string \<Rightarrow> js_object" where
  "obj_set obj k v = (if k = js ''__proto__'' then obj else AList.update k v obj)"

record MIDletInfo =
  name :: js_string
  icon :: "js_string option"
  className :: js_string

record JARManifest =
  midletName :: js_string
  midletVersion :: js_string
  midletVendor :: js_string
  midlets :: "MIDletInfo list"
  screenWidth :: js_number
  screenHeight :: js_number
  className :: js_string
  rawManifest :: js_object

subsection \<open>parseManifest\<close>

text \<open>The three variables of the loop over the lines.\<close>

record parse_state =
  manifest :: js_object
  currentKey :: js_string
  currentValue :: js_string

definition save_entry :: "parse_state \<Rightarrow> parse_state" where
  "save_entry st =
     (if currentKey st \<noteq> []
      then st\<lparr>manifest := obj_set (manifest st) (currentKey st) (trim (currentValue st))\<rparr>
      else st)"

definition parse_line :: "parse_state \<Rightarrow> js_string \<Rightarrow> parse_state" where
  "parse_line st line =
     (if startsWith line 32 then
        st\<lparr>currentValue := currentValue st @ substring_from line 1\<rparr>
      else if includes_unit line 58 then
        (let st' = save_entry st;
             colonIndex = indexOf line 58
         in st'\<lparr>currentKey := trim (substring line 0 colonIndex),
                currentValue := substring_from line (colonIndex + 1)\<rparr>)
      else st)"

definition parse_lines :: "parse_state \<Rightarrow> js_string list \<Rightarrow> parse_state" where
  "parse_lines st ls = foldl parse_line st ls"

definition initial_parse_state :: parse_state where
  "initial_parse_state = \<lparr>manifest = [], currentKey = [], currentValue = []\<rparr>"

definition parseManifest :: "js_string \<Rightarrow> js_object" where
  "parseManifest content =
     manifest (save_entry (parse_lines initial_parse_state (split_lines content)))"

subsection \<open>parseMIDletEntries\<close>

definition midlet_key :: "nat \<Rightarrow> js_string" where
  "midlet_key i = js ''MIDlet-'' @ show_nat i"

definition midlet_entry :: "nat \<Rightarrow> js_string \<Rightarrow> MIDletInfo" where
  "midlet_entry i entry =
     (let parts = map trim (split_on 44 entry)
      in \<lparr>name = or_default (at_index parts 0) (js ''MIDlet '' @ show_nat i),
          icon = (if truthy (at_index parts 1) then at_index parts 1 else None),
          className = or_default (at_index parts 2) []\<rparr>)"

text \<open>
  The loop \<open>while (manifest[`MIDlet-${i}`]) { ...; i++ }\<close>.  It ends because the keys
  \<open>MIDlet-i\<close> are pairwise different and the object has finitely many of them:
  \<open>show_nat\<close> has a left inverse.
\<close>

definition read_nat :: "js_string \<Rightarrow> nat" where
  "read_nat ds = foldl (\<lambda>acc d. 10 * acc + (d - 48)) 0 ds"

lemma read_show_nat: "read_nat (show_nat n) = n"
proof (induction n rule: show_nat.induct)
  case (1 n)
  show ?case
  proof (cases "n < 10")
    case True
    then show ?thesis by (simp add: show_nat.simps [of n] read_nat_def)
  next
    case False
    with 1 have "read_nat (show_nat (n div 10)) = n div 10" by simp
    with False show ?thesis
      by (simp add: show_nat.simps [of n] read_nat_def)
  qed
qed

lemma show_nat_inj: "show_nat a = show_nat b \<Longrightarrow> a = b"
  by (metis read_show_nat)

lemma midlet_key_inj: "inj midlet_key"
  by (auto simp: inj_on_def midlet_key_def dest: show_nat_inj)

lemma finite_midlet_indices: "finite {j. midlet_key j \<in> fst ` set (obj::js_object)}"
proof -
  have "finite (midlet_key -` (fst ` set obj))"
    by (rule finite_vimageI) (simp_all add: midlet_key_inj)
  then show ?thesis by (simp add: vimage_def)
qed

function parseMIDletEntries_loop ::
  "js_object \<Rightarrow> nat \<Rightarrow> MIDletInfo list \<Rightarrow> MIDletInfo list" where
  "parseMIDletEntries_loop obj i acc =
     (if truthy (obj_get obj (midlet_key i))
      then parseMIDletEntries_loop obj (Suc i)
             (acc @ [midlet_entry i (the (obj_get obj (midlet_key i)))])
      else acc)"
  by pat_completeness auto
termination
proof (relation "measure (\<lambda>(obj, i, acc). card {j. i \<le> j \<and> midlet_key j \<in> fst ` set obj})")
  show "wf (measure (\<lambda>(obj, i, acc). card {j. i \<le> j \<and> midlet_key j \<in> fst ` set obj}))"
    by simp
next
  fix obj :: js_object and i :: nat and acc :: "MIDletInfo list"
  assume t: "truthy (obj_get obj (midlet_key i))"
  then have mem: "midlet_key i \<in> fst ` set obj"
    by (auto simp: truthy_def obj_get_def split: option.splits
             dest: map_of_SomeD intro: rev_image_eqI)
  have fin: "finite {j. i \<le> j \<and> midlet_key j \<in> fst ` set obj}"
    by (rule finite_subset [OF _ finite_midlet_indices [of obj]]) auto
  have "i \<in> {j. i \<le> j \<and> midlet_key j \<in> fst ` set obj}"
    using mem by simp
  moreover have "i \<notin> {j. Suc i \<le> j \<and> midlet_key j \<in> fst ` set obj}"
    by simp
  moreover have "{j. Suc i \<le> j \<and> midlet_key j \<in> fst ` set obj}
                   \<subseteq> {j. i \<le> j \<and> midlet_key j \<in> fst ` set obj}"
    by auto
  ultimately have "{j. Suc i \<le> j \<and> midlet_key j \<in> fst ` set obj}
                     \<subset> {j. i \<le> j \<and> midlet_key j \<in> fst ` set obj}"
    by blast
  with fin show "((obj, Suc i, acc @ [midlet_entry i (the (obj_get obj (midlet_key i)))]),
                  (obj, i, acc))
        \<in> measure (\<lambda>(obj, i, acc). card {j. i \<le> j \<and> midlet_key j \<in> fst ` set obj})"
    by (simp add: psubset_card_mono)
qed

declare parseMIDletEntries_loop.simps [simp del]

definition parseMIDletEntries :: "js_object \<Rightarrow> MIDletInfo list" where
  "parseMIDletEntries obj = parseMIDletEntries_loop obj 1 []"

subsection \<open>parseScreenSize\<close>

record screen_size =
  width :: js_number
  height :: js_number

text \<open>\<open>manifest["Nokia-MIDlet-Canvas-Size"]?.split("x")[n]\<close>\<close>

definition canvas_size_part :: "js_object \<Rightarrow> nat \<Rightarrow> js_string option" where
  "canvas_size_part obj n =
     (case obj_get obj (js ''Nokia-MIDlet-Canvas-Size'') of
        None \<Rightarrow> None
      | Some s \<Rightarrow> at_index (split_on 120 s) n)"

definition parseScreenSize :: "js_object \<Rightarrow> screen_size" where
  "parseScreenSize obj =
     (let defaultWidth = Num 240;
          defaultHeight = Num 320;
          widthStr = or_else (obj_get obj (js ''MIDlet-Screen-Width'')) (canvas_size_part obj 0);
          heightStr = or_else (obj_get obj (js ''MIDlet-Screen-Height'')) (canvas_size_part obj 1)
      in \<lparr>width = (if truthy widthStr then parseInt (the widthStr) else defaultWidth),
          height = (if truthy heightStr then parseInt (the heightStr) else defaultHeight)\<rparr>)"

subsection \<open>parseJAR and parseJAD\<close>

text \<open>
  A thrown value is an \<open>Error\<close> instance with its message, or anything else.
\<close>

datatype js_error = Error js_string | OtherThrown

text \<open>
  The archive library (JSZip) is outside the repository; a \<open>File\<close> is modelled by its name
  and by what \<open>zip.loadAsync(file)\<close> does with it: it rejects, or it yields the archive.
  The archive maps the path of each file entry (directories are not returned by
  \<open>contents.file(path)\<close>) to the outcome of reading it with \<open>async("string")\<close>.
\<close>

type_synonym zip_archive = "(js_string \<times> (js_error + js_string)) list"

record js_file =
  file_name :: js_string
  loadAsync :: "js_error + zip_archive"

definition zip_file :: "zip_archive \<Rightarrow> js_string \<Rightarrow> (js_error + js_string) option" where
  "zip_file contents path = map_of contents path"

text \<open>
  \<open>midlets[0]?.className || "Start"\<close>, and the record that both \<open>parseJAR\<close> and \<open>parseJAD\<close>
  return: their \<open>return\<close> statements differ only in the fallback for \<open>midletName\<close>.
\<close>

definition first_className :: "MIDletInfo list \<Rightarrow> js_string" where
  "first_className ms =
     or_default (map_option MIDletInfo.className (at_index ms 0)) (js ''Start'')"

definition build_manifest :: "js_string \<Rightarrow> js_object \<Rightarrow> JARManifest" where
  "build_manifest fallbackName raw =
     (let ms = parseMIDletEntries raw;
          sz = parseScreenSize raw
      in \<lparr>midletName = or_default (obj_get raw (js ''MIDlet-Name'')) fallbackName,
          midletVersion = or_default (obj_get raw (js ''MIDlet-Version'')) (js ''1.0''),
          midletVendor = or_default (obj_get raw (js ''MIDlet-Vendor'')) (js ''Unknown''),
          midlets = ms,
          screenWidth = width sz,
          screenHeight = height sz,
          className = first_className ms,
          rawManifest = raw\<rparr>)"

definition parseJAR :: "js_file \<Rightarrow> js_error + JARManifest" where
  "parseJAR file =
     (case loadAsync file of
        Inl e \<Rightarrow> Inl e
      | Inr contents \<Rightarrow>
          (case zip_file contents (js ''META-INF/MANIFEST.MF'') of
             None \<Rightarrow> Inl (Error (js ''Invalid JAR: MANIFEST.MF not found''))
           | Some manifestFile \<Rightarrow>
               (case manifestFile of
                  Inl e \<Rightarrow> Inl e
                | Inr manifestContent \<Rightarrow>
                    Inr (build_manifest (replace_first (js ''.jar'') [] (file_name file))
                           (parseManifest manifestContent)))))"

definition parseJAD :: "js_string \<Rightarrow> JARManifest" where
  "parseJAD content = build_manifest (js ''Unknown'') (parseManifest content)"

text \<open>Every value of an object is a fixed point of \<open>trim\<close>.\<close>

definition values_trimmed :: "js_object \<Rightarrow> bool" where
  "values_trimmed obj \<longleftrightarrow> (\<forall>k v. obj_get obj k = Some v \<longrightarrow> trim v = v)"

section \<open>The engine adapter (hooks/useCheerpJ.ts)\<close>

text \<open>
  \<open>useCheerpJ\<close> is a React hook.  Its state (\<open>useState\<close>) is the record \<open>hook_state\<close>; its two
  refs (\<open>useRef\<close>) are mutable cells that every callback reads and writes directly.  A
  callback made by \<open>useCallback\<close> reads the state through the constants of the render that
  created it, so each operation below takes, besides the world it acts on, the state
  \<open>c\<close> its closure captured.  The callbacks the hook returns after a render are those of
  \<open>render w\<close>, the state committed at that time.

  The browser and the engine are outside the repository.  What the adapter asks of them is
  recorded in \<open>trace\<close>, newest call first; what they answer is an argument of the operation
  (\<open>init_env\<close>, \<open>load_env\<close>).  An operation is modelled from its call to the settlement of its
  promise, and operations follow one another.  Closures and answers are arbitrary in the
  sequences of calls below; the part of \<open>loadJAR\<close> after \<open>await initialize()\<close> is \<open>loadJAR\<close>
  called by a ready closure.
\<close>

datatype EmulatorStatus = Idle | Loading | Initializing | Running | Paused | Error_status

type_synonym element = nat
type_synonym blob = nat

record hook_state =
  status :: EmulatorStatus
  error :: "js_string option"
  isReady :: bool
  displayElement :: "element option"

text \<open>
  The calls that leave the adapter: \<open>document.head.appendChild(script)\<close> with the script's
  \<open>src\<close>; \<open>window.cheerpjInit({version: 8, status: 'none', clipboardMode: 'java'})\<close>;
  \<open>URL.revokeObjectURL(url)\<close>; \<open>URL.createObjectURL(blob)\<close> with the URL it returned;
  \<open>window.cheerpjCreateDisplay(width, height, parent)\<close>;
  \<open>window.cheerpjRunMain(className, classPath)\<close>; and \<open>element.dispatchEvent(event)\<close> with
  the event's type and key code.
\<close>

datatype effect =
    AppendScript js_string
  | CheerpjInit
  | RevokeObjectURL js_string
  | CreateObjectURL blob js_string
  | CheerpjCreateDisplay js_number js_number element
  | CheerpjRunMain js_string js_string
  | DispatchEvent element js_string int

record world =
  state :: hook_state
  containerRef :: "element option"
  jarUrlRef :: "js_string option"
  cheerpjInit_defined :: bool
  trace :: "effect list"

definition render :: "world \<Rightarrow> hook_state" where
  "render w = state w"

definition setStatus :: "EmulatorStatus \<Rightarrow> world \<Rightarrow> world" where
  "setStatus s w = w\<lparr>state := (state w)\<lparr>status := s\<rparr>\<rparr>"

definition setError :: "js_string option \<Rightarrow> world \<Rightarrow> world" where
  "setError e w = w\<lparr>state := (state w)\<lparr>error := e\<rparr>\<rparr>"

definition setIsReady :: "bool \<Rightarrow> world \<Rightarrow> world" where
  "setIsReady b w = w\<lparr>state := (state w)\<lparr>isReady := b\<rparr>\<rparr>"

definition setDisplayElement :: "element option \<Rightarrow> world \<Rightarrow> world" where
  "setDisplayElement d w = w\<lparr>state := (state w)\<lparr>displayElement := d\<rparr>\<rparr>"

definition perform :: "effect \<Rightarrow> world \<Rightarrow> world" where
  "perform e w = w\<lparr>trace := e # trace w\<rparr>"

text \<open>\<open>err instanceof Error ? err.message : fallback\<close>\<close>

definition error_message :: "js_error \<Rightarrow> js_string \<Rightarrow> js_string" where
  "error_message err fallback = (case err of Error m \<Rightarrow> m | OtherThrown \<Rightarrow> fallback)"

text \<open>
  The answers of the environment.  The injected script fires \<open>onload\<close> or \<open>onerror\<close>; once
  loaded it has defined the global \<open>cheerpjInit\<close> (the source declares it on \<open>Window\<close>).  A
  promise resolves (\<open>None\<close>) or rejects with a thrown value.  \<open>URL.createObjectURL\<close> returns
  \<open>blob:\<close> followed by an identifier of the browser's choice, so the URL is never empty.
\<close>

datatype script_event = Onload | Onerror

record init_env =
  script_event :: script_event
  cheerpjInit_result :: "js_error option"

record load_env = init_env +
  object_url_id :: js_string
  createDisplay_result :: "js_error + element"
  runMain_result :: "js_error option"

definition CHEERPJ_CDN :: js_string where
  "CHEERPJ_CDN = js ''https://cjrtnc.leaningtech.com/3.0/cj3loader.js''"

definition blob_url :: "js_string \<Rightarrow> js_string" where
  "blob_url ident = js ''blob:'' @ ident"

subsection \<open>loadScript and initialize\<close>

definition loadScript :: "'a init_env_scheme \<Rightarrow> world \<Rightarrow> js_error option \<times> world" where
  "loadScript env w =
     (if cheerpjInit_defined w then (None, w)
      else (let w1 = perform (AppendScript CHEERPJ_CDN) w
            in case script_event env of
                 Onload \<Rightarrow> (None, w1\<lparr>cheerpjInit_defined := True\<rparr>)
               | Onerror \<Rightarrow> (Some (Error (js ''Failed to load CheerpJ'')), w1)))"

text \<open>The \<open>catch\<close> block of \<open>initialize\<close>.\<close>

definition initialize_catch :: "js_error \<Rightarrow> world \<Rightarrow> bool \<times> world" where
  "initialize_catch err w =
     (False,
      setStatus Error_status
        (setError (Some (error_message err (js ''Failed to initialize CheerpJ''))) w))"

definition initialize :: "hook_state \<Rightarrow> 'a init_env_scheme \<Rightarrow> world \<Rightarrow> bool \<times> world" where
  "initialize c env w =
     (if isReady c then (True, w)
      else (let w1 = setError None (setStatus Loading w)
            in case loadScript env w1 of
                 (Some err, w2) \<Rightarrow> initialize_catch err w2
               | (None, w2) \<Rightarrow>
                   (let w3 = perform CheerpjInit (setStatus Initializing w2)
                    in case cheerpjInit_result env of
                         Some err \<Rightarrow> initialize_catch err w3
                       | None \<Rightarrow> (True, setStatus Idle (setIsReady True w3)))))"

subsection \<open>loadJAR\<close>

text \<open>\<open>if (jarUrlRef.current) URL.revokeObjectURL(jarUrlRef.current)\<close>\<close>

definition revoke_previous :: "world \<Rightarrow> world" where
  "revoke_previous w =
     (case jarUrlRef w of
        None \<Rightarrow> w
      | Some u \<Rightarrow> if u \<noteq> [] then perform (RevokeObjectURL u) w else w)"

text \<open>\<open>if (containerRef.current) { const display = cheerpjCreateDisplay(...); setDisplayElement(display) }\<close>\<close>

definition create_display ::
  "js_number \<Rightarrow> js_number \<Rightarrow> load_env \<Rightarrow> world \<Rightarrow> js_error option \<times> world" where
  "create_display screenW screenH env w =
     (case containerRef w of
        None \<Rightarrow> (None, w)
      | Some parent \<Rightarrow>
          (let w1 = perform (CheerpjCreateDisplay screenW screenH parent) w
           in case createDisplay_result env of
                Inl err \<Rightarrow> (Some err, w1)
              | Inr display \<Rightarrow> (None, setDisplayElement (Some display) w1)))"

text \<open>The \<open>catch\<close> block of \<open>loadJAR\<close>: it records the failure and throws the same value again.\<close>

definition loadJAR_catch :: "js_error \<Rightarrow> world \<Rightarrow> (js_error + unit) \<times> world" where
  "loadJAR_catch err w =
     (Inl err,
      setStatus Error_status (setError (Some (error_message err (js ''Failed to load JAR''))) w))"

text \<open>The \<open>try\<close> block of \<open>loadJAR\<close>.\<close>

definition loadJAR_try ::
  "blob \<Rightarrow> js_string \<Rightarrow> js_number \<Rightarrow> js_number \<Rightarrow> load_env \<Rightarrow> world
     \<Rightarrow> (js_error + unit) \<times> world" where
  "loadJAR_try jarBlob mainClass screenW screenH env w =
     (let w1 = revoke_previous (setStatus Loading w);
          jarUrl = blob_url (object_url_id env);
          w2 = (perform (CreateObjectURL jarBlob jarUrl) w1)\<lparr>jarUrlRef := Some jarUrl\<rparr>
      in case create_display screenW screenH env w2 of
           (Some err, w3) \<Rightarrow> loadJAR_catch err w3
         | (None, w3) \<Rightarrow>
             (let w4 = perform (CheerpjRunMain mainClass (js ''/app/'' @ jarUrl @ js '':lib/''))
                         (setStatus Running w3)
              in case runMain_result env of
                   Some err \<Rightarrow> loadJAR_catch err w4
                 | None \<Rightarrow> (Inr (), w4)))"

text \<open>
  \<open>loadJAR\<close> and the \<open>initialize\<close> it calls belong to the same render, so both see the same
  captured \<open>isReady\<close>.
\<close>

definition loadJAR ::
  "hook_state \<Rightarrow> blob \<Rightarrow> js_string \<Rightarrow> js_number \<Rightarrow> js_number \<Rightarrow> load_env \<Rightarrow> world
     \<Rightarrow> (js_error + unit) \<times> world" where
  "loadJAR c jarBlob mainClass screenW screenH env w =
     (if \<not> isReady c then
        (let (initialized, w1) = initialize c env w
         in if \<not> initialized then (Inl (Error (js ''CheerpJ not initialized'')), w1)
            else loadJAR_try jarBlob mainClass screenW screenH env w1)
      else loadJAR_try jarBlob mainClass screenW screenH env w)"

subsection \<open>stop, sendKeyEvent and the cleanup on unmount\<close>

definition stop :: "world \<Rightarrow> world" where
  "stop w =
     (let w1 = (case jarUrlRef w of
                  None \<Rightarrow> w
                | Some u \<Rightarrow>
                    if u \<noteq> [] then (perform (RevokeObjectURL u) w)\<lparr>jarUrlRef := None\<rparr>
                    else w)
      in setDisplayElement None (setStatus Idle w1))"

definition sendKeyEvent :: "hook_state \<Rightarrow> int \<Rightarrow> bool \<Rightarrow> world \<Rightarrow> world" where
  "sendKeyEvent c keyCode pressed w =
     (if status c \<noteq> Running \<or> displayElement c = None then w
      else (let eventType = (if pressed then js ''keydown'' else js ''keyup'')
            in perform (DispatchEvent (the (displayElement c)) eventType keyCode) w))"

definition unmount :: "world \<Rightarrow> world" where
  "unmount w = revoke_previous w"

subsection \<open>The hook from its first render on\<close>

text \<open>
  The first render: the initial values of \<open>useState\<close> and \<open>useRef\<close>; the container the
  component attaches and whether an earlier page script already defined \<open>cheerpjInit\<close> are
  given.
\<close>

definition mount :: "element option \<Rightarrow> bool \<Rightarrow> world" where
  "mount container defined =
     \<lparr>state = \<lparr>status = Idle, error = None, isReady = False, displayElement = None\<rparr>,
      containerRef = container,
      jarUrlRef = None,
      cheerpjInit_defined = defined,
      trace = []\<rparr>"

text \<open>A call of one of the operations the hook returns, by any closure and with any answer.\<close>

datatype call =
    CallInitialize hook_state init_env
  | CallLoadJAR hook_state blob js_string js_number js_number load_env
  | CallStop
  | CallSendKeyEvent hook_state int bool
  | Unmount

fun run_call :: "call \<Rightarrow> world \<Rightarrow> world" where
  "run_call (CallInitialize c env) w = snd (initialize c env w)"
| "run_call (CallLoadJAR c jarBlob mainClass screenW screenH env) w =
     snd (loadJAR c jarBlob mainClass screenW screenH env w)"
| "run_call CallStop w = stop w"
| "run_call (CallSendKeyEvent c keyCode pressed) w = sendKeyEvent c keyCode pressed w"
| "run_call Unmount w = unmount w"

fun run_calls :: "call list \<Rightarrow> world \<Rightarrow> world" where
  "run_calls [] w = w"
| "run_calls (x # xs) w = run_calls xs (run_call x w)"

text \<open>
  Repeated calls of \<open>initialize\<close>, one after the other, each through the callback of the
  render that follows the call before it.
\<close>

fun initialize_calls :: "init_env list \<Rightarrow> world \<Rightarrow> bool list \<times> world" where
  "initialize_calls [] w = ([], w)"
| "initialize_calls (env # envs) w =
     (let (r, w1) = initialize (render w) env w;
          (rs, w2) = initialize_calls envs w1
      in (r # rs, w2))"

text \<open>
  The blob URLs that are live after a trace: created and not revoked since.  A trace never
  has two live handles when that holds at each of its moments.
\<close>

fun live_handles :: "effect list \<Rightarrow> js_string set" where
  "live_handles [] = {}"
| "live_handles (e # es) =
     (case e of
        CreateObjectURL b u \<Rightarrow> insert u (live_handles es)
      | RevokeObjectURL u \<Rightarrow> live_handles es - {u}
      | _ \<Rightarrow> live_handles es)"

fun at_most_one_live :: "effect list \<Rightarrow> bool" where
  "at_most_one_live [] = True"
| "at_most_one_live (e # es) \<longleftrightarrow> card (live_handles (e # es)) \<le> 1 \<and> at_most_one_live es"

text \<open>
  The handle discipline: never two live handles so far, a live handle is the one
  \<open>jarUrlRef\<close> holds, and \<open>jarUrlRef\<close> never holds the empty (falsy) string.
\<close>

definition handles_ok :: "world \<Rightarrow> bool" where
  "handles_ok w \<longleftrightarrow>
     at_most_one_live (trace w) \<and> live_handles (trace w) \<subseteq> set_option (jarUrlRef w) \<and>
     jarUrlRef w \<noteq> Some []"

subsection \<open>Manifests and archives used as concrete inputs\<close>

text \<open>Two contiguous MIDlet entries, a gap at index 3 and a further entry at index 4.\<close>

definition two_midlets :: js_object where
  "two_midlets =
     [(js ''MIDlet-1'', js ''Snake, /snake.png, game.Snake''),
      (js ''MIDlet-2'', js ''Tetris''),
      (js ''MIDlet-4'', js ''Pong, /pong.png, game.Pong'')]"

text \<open>
  What \<open>parseManifest\<close> returns for the three lines \<open>MIDlet-1: Snake, /snake.png, game.Snake\<close>,
  \<open>MIDlet-2:\<close> and \<open>MIDlet-3: Pong, /pong.png, game.Pong\<close>: the second key is present and
  bound to the empty string.
\<close>

definition empty_second :: js_object where
  "empty_second =
     [(js ''MIDlet-1'', js ''Snake, /snake.png, game.Snake''),
      (js ''MIDlet-2'', []),
      (js ''MIDlet-3'', js ''Pong, /pong.png, game.Pong'')]"

definition empty_second_text :: js_string where
  "empty_second_text =
     js ''MIDlet-1: Snake, /snake.png, game.Snake'' @ [10] @
     js ''MIDlet-2:   '' @ [10] @
     js ''MIDlet-3: Pong, /pong.png, game.Pong''"

text \<open>A descriptor with one entry, and the same followed by the line \<open>MIDlet-2:\<close>.\<close>

definition one_entry_text :: js_string where
  "one_entry_text = js ''MIDlet-1: Snake, /snake.png, game.Snake''"

definition one_entry_empty_text :: js_string where
  "one_entry_empty_text = js ''MIDlet-1: Snake, /snake.png, game.Snake'' @ [10] @ js ''MIDlet-2:''"

text \<open>An archive with a manifest that declares no MIDlet, and one without a manifest.\<close>

definition plain_jar :: js_file where
  "plain_jar =
     \<lparr>file_name = js ''game.jar'',
      loadAsync = Inr [(js ''META-INF/MANIFEST.MF'', Inr (js ''Manifest-Version: 1.0''))]\<rparr>"

definition no_manifest_jar :: js_file where
  "no_manifest_jar =
     \<lparr>file_name = js ''broken.jar'',
      loadAsync = Inr [(js ''Main.class'', Inr (js ''code'')),
                       (js ''meta-inf/manifest.mf'', Inr (js ''MIDlet-1: A, , B''))]\<rparr>"

text \<open>A value folded over two continuation lines, with CRLF and with LF line ends.\<close>

definition folded_crlf :: js_string where
  "folded_crlf = js ''MIDlet-Name: My'' @ [13, 10] @ js ''  Game'' @ [13, 10] @ js ''  Over  ''"

definition folded_lf :: js_string where
  "folded_lf = js ''MIDlet-Name: My'' @ [10] @ js ''  Game'' @ [13, 10] @ js ''  Over  ''"

definition name_pending :: parse_state where
  "name_pending = \<lparr>manifest = [], currentKey = js ''MIDlet-Name'', currentValue = js '' My''\<rparr>"

text \<open>
  A manifest with CR LF and LF line ends, an empty line, and a value folded over two
  continuation lines with a line without colon between them.
\<close>

definition folded_manifest :: js_string where
  "folded_manifest =
     js ''Manifest-Version: 1.0'' @ [13, 10] @ [13, 10] @
     js ''MIDlet-Name: My'' @ [13, 10] @
     js ''  Game'' @ [13, 10] @
     js ''no colon here'' @ [10] @
     js ''  Over  '' @ [13, 10] @
     js ''MIDlet-1: A, , B'' @ [10]"

subsection \<open>Worlds and answers used as concrete inputs\<close>

text \<open>
  A hook just mounted in a page without the engine, with container element 1; the states two
  renders capture (before and after a first successful \<open>loadJAR\<close>); and answers of the
  environment: everything succeeds, \<open>cheerpjInit\<close> rejects, \<open>cheerpjCreateDisplay\<close> throws,
  \<open>cheerpjRunMain\<close> rejects.
\<close>

definition fresh :: world where
  "fresh = mount (Some 1) False"

definition first_render :: hook_state where
  "first_render = \<lparr>status = Idle, error = None, isReady = False, displayElement = None\<rparr>"

definition running_render :: hook_state where
  "running_render = \<lparr>status = Running, error = None, isReady = True, displayElement = Some 7\<rparr>"

definition init_ok :: init_env where
  "init_ok = \<lparr>script_event = Onload, cheerpjInit_result = None\<rparr>"

definition all_ok :: load_env where
  "all_ok = \<lparr>script_event = Onload, cheerpjInit_result = None, object_url_id = js ''a1'',
            createDisplay_result = Inr 7, runMain_result = None\<rparr>"

definition all_ok_again :: load_env where
  "all_ok_again = \<lparr>script_event = Onload, cheerpjInit_result = None, object_url_id = js ''b2'',
                  createDisplay_result = Inr 8, runMain_result = None\<rparr>"

definition init_rejects :: load_env where
  "init_rejects = \<lparr>script_event = Onload, cheerpjInit_result = Some (Error (js ''no engine'')),
                  object_url_id = js ''a1'', createDisplay_result = Inr 7, runMain_result = None\<rparr>"

definition display_throws :: load_env where
  "display_throws = \<lparr>script_event = Onload, cheerpjInit_result = None, object_url_id = js ''a1'',
                    createDisplay_result = Inl OtherThrown, runMain_result = None\<rparr>"

definition run_rejects :: load_env where
  "run_rejects = \<lparr>script_event = Onload, cheerpjInit_result = None, object_url_id = js ''a1'',
                 createDisplay_result = Inr 7, runMain_result = Some (Error (js ''no class''))\<rparr>"

text \<open>Load a JAR; then load a second one; then stop.\<close>

definition first_load :: "call list" where
  "first_load = [CallLoadJAR first_render 1 (js ''game.Snake'') (Num 240) (Num 320) all_ok]"

definition two_loads :: "call list" where
  "two_loads =
     first_load @ [CallLoadJAR running_render 2 (js ''game.Pong'') (Num 176) (Num 220) all_ok_again]"

definition two_loads_stop :: "call list" where
  "two_loads_stop = two_loads @ [CallStop]"

section \<open>Lemmas about the parser\<close>

subsection \<open>The entry loop\<close>

lemma loop_entries:
  "(\<forall>j. i \<le> j \<and> j < i + n \<longrightarrow> truthy (obj_get obj (midlet_key j))) \<Longrightarrow>
   \<not> truthy (obj_get obj (midlet_key (i + n))) \<Longrightarrow>
   parseMIDletEntries_loop obj i acc =
     acc @ map (\<lambda>j. midlet_entry j (the (obj_get obj (midlet_key j)))) [i..<i + n]"
proof (induction n arbitrary: i acc)
  case 0
  then show ?case by (simp add: parseMIDletEntries_loop.simps [of obj i])
next
  case (Suc n)
  have t: "truthy (obj_get obj (midlet_key i))" using Suc.prems(1) by simp
  have "parseMIDletEntries_loop obj (Suc i) (acc @ [midlet_entry i (the (obj_get obj (midlet_key i)))]) =
        (acc @ [midlet_entry i (the (obj_get obj (midlet_key i)))]) @
          map (\<lambda>j. midlet_entry j (the (obj_get obj (midlet_key j)))) [Suc i..<Suc i + n]"
    using Suc.prems by (intro Suc.IH) auto
  moreover have "[i..<i + Suc n] = i # [Suc i..<Suc i + n]"
    by (subst upt_rec) simp
  ultimately show ?case
    using t by (simp add: parseMIDletEntries_loop.simps [of obj i] del: upt_Suc)
qed

lemma loop_cong:
  "(\<And>j. truthy (obj_get a (midlet_key j)) = truthy (obj_get b (midlet_key j))) \<Longrightarrow>
   (\<And>j. truthy (obj_get a (midlet_key j)) \<Longrightarrow> obj_get a (midlet_key j) = obj_get b (midlet_key j)) \<Longrightarrow>
   parseMIDletEntries_loop a i acc = parseMIDletEntries_loop b i acc"
proof (induction a i acc rule: parseMIDletEntries_loop.induct)
  case (1 obj i acc)
  show ?case
  proof (cases "truthy (obj_get obj (midlet_key i))")
    case True
    then have tb: "truthy (obj_get b (midlet_key i))" using "1.prems"(1) by simp
    have eq: "obj_get obj (midlet_key i) = obj_get b (midlet_key i)" using True "1.prems"(2) by simp
    have "parseMIDletEntries_loop obj (Suc i) (acc @ [midlet_entry i (the (obj_get obj (midlet_key i)))]) =
          parseMIDletEntries_loop b (Suc i) (acc @ [midlet_entry i (the (obj_get obj (midlet_key i)))])"
      using True "1.prems" by (intro "1.IH") auto
    with True tb eq show ?thesis
      by (simp add: parseMIDletEntries_loop.simps [of obj i] parseMIDletEntries_loop.simps [of
            b i])
  next
    case False
    then have "\<not> truthy (obj_get b (midlet_key i))" using "1.prems"(1) by simp
    with False show ?thesis
      by (simp add: parseMIDletEntries_loop.simps [of obj i] parseMIDletEntries_loop.simps [of
            b i])
  qed
qed

subsection \<open>Removing a key that is bound to the empty string\<close>

lemma show_nat_digits: "show_nat n \<noteq> [] \<and> (\<forall>c \<in> set (show_nat n). 48 \<le> c \<and> c \<le> 57)"
proof (induction n rule: show_nat.induct)
  case (1 n)
  show ?case
  proof (cases "n < 10")
    case True
    then show ?thesis by (simp add: show_nat.simps [of n])
  next
    case False
    with 1 have "show_nat (n div 10) \<noteq> [] \<and> (\<forall>c \<in> set (show_nat (n div 10)). 48 \<le> c \<and> c \<le> 57)"
      by simp
    moreover have "n mod 10 < 10" by simp
    ultimately show ?thesis using False
      by (simp add: show_nat.simps [of n])
  qed
qed

lemma midlet_key_not_named:
  "midlet_key k \<noteq> js ''MIDlet-Name''" "midlet_key k \<noteq> js ''MIDlet-Version''"
  "midlet_key k \<noteq> js ''MIDlet-Vendor''" "midlet_key k \<noteq> js ''MIDlet-Screen-Width''"
  "midlet_key k \<noteq> js ''MIDlet-Screen-Height''" "midlet_key k \<noteq> js ''Nokia-MIDlet-Canvas-Size''"
  using show_nat_digits [of k] by (auto simp: midlet_key_def js_def)

lemma obj_get_delete:
  "obj_get (AList.delete k obj) x = (if x = k then None else obj_get obj x)"
  by (simp add: obj_get_def delete_conv')

lemma parseMIDletEntries_delete_empty:
  assumes e: "obj_get obj (midlet_key k) = Some []"
  shows "parseMIDletEntries obj = parseMIDletEntries (AList.delete (midlet_key k) obj)"
proof -
  let ?d = "AList.delete (midlet_key k) obj"
  have "parseMIDletEntries_loop obj 1 [] = parseMIDletEntries_loop ?d 1 []"
  proof (rule loop_cong)
    fix j show "truthy (obj_get obj (midlet_key j)) = truthy (obj_get ?d (midlet_key j))"
      using e by (auto simp: obj_get_delete truthy_def)
  next
    fix j assume "truthy (obj_get obj (midlet_key j))"
    then show "obj_get obj (midlet_key j) = obj_get ?d (midlet_key j)"
      using e by (auto simp: obj_get_delete truthy_def)
  qed
  then show ?thesis by (simp add: parseMIDletEntries_def)
qed

lemma parseScreenSize_delete:
  "parseScreenSize (AList.delete (midlet_key k) obj) = parseScreenSize obj"
  by (simp add: parseScreenSize_def canvas_size_part_def obj_get_delete midlet_key_not_named
        midlet_key_not_named [THEN not_sym])

subsection \<open>trim\<close>

lemma dropWhile_rev_split: "xs = rev (dropWhile P (rev xs)) @ rev (takeWhile P (rev xs))"
proof -
  have "rev (rev xs) = rev (takeWhile P (rev xs) @ dropWhile P (rev xs))"
    by (simp only: takeWhile_dropWhile_id)
  then show ?thesis by (simp only: rev_append rev_rev_ident)
qed

lemma trim_no_leading: "trim s \<noteq> [] \<Longrightarrow> \<not> is_white_space (hd (trim s))"
proof -
  assume ne: "trim s \<noteq> []"
  let ?d = "dropWhile is_white_space s"
  have "?d = trim s @ rev (takeWhile is_white_space (rev ?d))"
    unfolding trim_def by (rule dropWhile_rev_split)
  then obtain r where split: "?d = trim s @ r" by blast
  from ne split have "?d \<noteq> []" by simp
  then have "\<not> is_white_space (hd ?d)" by (rule hd_dropWhile)
  moreover from ne split have "hd ?d = hd (trim s)" by simp
  ultimately show ?thesis by simp
qed

lemma trim_no_trailing: "trim s \<noteq> [] \<Longrightarrow> \<not> is_white_space (last (trim s))"
proof -
  assume ne: "trim s \<noteq> []"
  let ?r = "dropWhile is_white_space (rev (dropWhile is_white_space s))"
  from ne have "?r \<noteq> []" by (simp add: trim_def)
  then have "\<not> is_white_space (hd ?r)" by (rule hd_dropWhile)
  moreover have "last (trim s) = hd ?r"
    using \<open>?r \<noteq> []\<close> by (simp add: trim_def last_rev)
  ultimately show ?thesis by simp
qed

lemma trim_fixed: "s = [] \<or> (\<not> is_white_space (hd s) \<and> \<not> is_white_space (last s)) \<Longrightarrow> trim s = s"
proof (cases s)
  case Nil
  then show ?thesis by (simp add: trim_def)
next
  case (Cons a as)
  assume "s = [] \<or> (\<not> is_white_space (hd s) \<and> \<not> is_white_space (last s))"
  with Cons have h: "\<not> is_white_space a" and l: "\<not> is_white_space (last s)" by auto
  from h Cons have d: "dropWhile is_white_space s = s" by simp
  have "hd (rev s) = last s" using Cons by (simp add: hd_rev)
  with l have "dropWhile is_white_space (rev s) = rev s"
    by (simp only: dropWhile_eq_self_iff) simp
  with d show ?thesis by (simp add: trim_def)
qed

lemma trim_idem: "trim (trim s) = trim s"
  by (rule trim_fixed) (use trim_no_leading trim_no_trailing in blast)

subsection \<open>The values of a parsed manifest\<close>

lemma values_trimmed_obj_set:
  "values_trimmed obj \<Longrightarrow> values_trimmed (obj_set obj k (trim v))"
  by (auto simp: values_trimmed_def obj_set_def obj_get_def update_conv' trim_idem)

lemma values_trimmed_save_entry:
  "values_trimmed (manifest st) \<Longrightarrow> values_trimmed (manifest (save_entry st))"
  by (simp add: save_entry_def values_trimmed_obj_set)

lemma values_trimmed_parse_line:
  "values_trimmed (manifest st) \<Longrightarrow> values_trimmed (manifest (parse_line st line))"
  by (simp add: parse_line_def Let_def values_trimmed_save_entry)

lemma values_trimmed_parse_lines:
  "values_trimmed (manifest st) \<Longrightarrow> values_trimmed (manifest (parse_lines st ls))"
  unfolding parse_lines_def
  by (induction ls arbitrary: st) (simp_all add: values_trimmed_parse_line)

lemma values_trimmed_parseManifest: "values_trimmed (parseManifest content)"
  unfolding parseManifest_def
  by (intro values_trimmed_save_entry values_trimmed_parse_lines)
     (simp add: initial_parse_state_def values_trimmed_def obj_get_def)

lemma substring_from_1: "substring_from s 1 = drop 1 s"
  by (cases s) (simp_all add: substring_from_def substring_def Let_def)

lemma parse_line_continuation:
  "startsWith line 32 \<Longrightarrow>
   parse_line st line = st\<lparr>currentValue := currentValue st @ drop 1 line\<rparr>"
  by (simp add: parse_line_def substring_from_1)

lemma parse_lines_continuations:
  "\<forall>l \<in> set conts. startsWith l 32 \<Longrightarrow>
   parse_lines st conts =
     st\<lparr>currentValue := currentValue st @ concat (map (drop 1) conts)\<rparr>"
  unfolding parse_lines_def
proof (induction conts arbitrary: st)
  case Nil
  show ?case by simp
next
  case (Cons l conts)
  then have "startsWith l 32" and rest: "\<forall>l \<in> set conts. startsWith l 32" by auto
  then have "parse_line st l = st\<lparr>currentValue := currentValue st @ drop 1 l\<rparr>"
    by (simp add: parse_line_continuation)
  with Cons.IH [OF rest] show ?case by simp
qed

lemma split_lines_crlf:
  "10 \<notin> set l \<Longrightarrow> split_lines (l @ 13 # 10 # rest) = l # split_lines rest"
proof (induction l)
  case Nil
  show ?case by simp
next
  case (Cons c l)
  then have c: "c \<noteq> 10" and IH: "split_lines (l @ 13 # 10 # rest) = l # split_lines rest"
    by auto
  show ?case
  proof (cases l)
    case Nil
    with c IH show ?thesis by simp
  next
    case (Cons d l')
    with Cons.prems have "d \<noteq> 10" by auto
    with c IH Cons show ?thesis by simp
  qed
qed

lemma split_lines_no_lf: "10 \<notin> set l \<Longrightarrow> split_lines l = [l]"
proof (induction l rule: split_lines.induct)
  case 1
  show ?case by simp
next
  case (2 c)
  then show ?case by simp
next
  case (3 c d cs)
  then show ?case by simp
qed

lemma split_lines_lf:
  "10 \<notin> set l \<Longrightarrow> l = [] \<or> last l \<noteq> 13 \<Longrightarrow>
   split_lines (l @ 10 # rest) = l # split_lines rest"
proof (induction l)
  case Nil
  show ?case by (cases rest) simp_all
next
  case (Cons c l)
  then have c: "c \<noteq> 10" by auto
  show ?case
  proof (cases l)
    case Nil
    with Cons.prems have "c \<noteq> 13" by simp
    moreover have "split_lines (10 # rest) = [] # split_lines rest" by (cases rest) simp_all
    ultimately show ?thesis using c Nil by simp
  next
    case (Cons d l')
    with Cons.prems have d: "d \<noteq> 10" and "last l \<noteq> 13" and "10 \<notin> set l" by auto
    then have "split_lines (l @ 10 # rest) = l # split_lines rest"
      using Cons.IH by simp
    with c d Cons show ?thesis by simp
  qed
qed

subsection \<open>The derived class name\<close>

lemma first_className_cases:
  "first_className ms =
     (case ms of
        [] \<Rightarrow> js ''Start''
      | m # _ \<Rightarrow> if MIDletInfo.className m \<noteq> [] then MIDletInfo.className m else js ''Start'')"
  by (cases ms) (simp_all add: first_className_def or_default_def at_index_def)

subsection \<open>The concrete inputs, evaluated\<close>

lemma two_midlets_get:
  "obj_get two_midlets (midlet_key 1) = Some (js ''Snake, /snake.png, game.Snake'')"
  "obj_get two_midlets (midlet_key 2) = Some (js ''Tetris'')"
  "obj_get two_midlets (midlet_key 3) = None"
  "obj_get two_midlets (midlet_key 4) = Some (js ''Pong, /pong.png, game.Pong'')"
  by (simp_all add: two_midlets_def obj_get_def midlet_key_def js_def show_nat.simps)

lemma parse_empty_second: "parseManifest empty_second_text = empty_second"
  by (simp add: empty_second_text_def empty_second_def js_def startsWith_def includes_unit_def
        indexOf_def substring_def substring_from_def trim_def is_white_space_def obj_set_def
        save_entry_def parse_line_def parse_lines_def initial_parse_state_def
        parseManifest_def Let_def)

lemma empty_second_get:
  "obj_get empty_second (midlet_key 1) = Some (js ''Snake, /snake.png, game.Snake'')"
  "obj_get empty_second (midlet_key 2) = Some []"
  by (simp_all add: empty_second_def obj_get_def midlet_key_def js_def show_nat.simps)

lemma name_pending_fields:
  "currentKey name_pending = js ''MIDlet-Name''" "currentValue name_pending = js '' My''"
  "manifest name_pending = []"
  by (simp_all add: name_pending_def)

lemma parse_folded:
  "parseManifest folded_crlf = [(js ''MIDlet-Name'', js ''My Game Over'')]"
  by (simp add: folded_crlf_def js_def startsWith_def includes_unit_def indexOf_def
        substring_def substring_from_def trim_def is_white_space_def obj_set_def
        save_entry_def parse_line_def parse_lines_def initial_parse_state_def
        parseManifest_def Let_def)

lemma parse_one_entry:
  "parseManifest one_entry_text = [(js ''MIDlet-1'', js ''Snake, /snake.png, game.Snake'')]"
  "parseManifest one_entry_empty_text =
     [(js ''MIDlet-1'', js ''Snake, /snake.png, game.Snake''), (js ''MIDlet-2'', [])]"
  by (simp_all add: one_entry_text_def one_entry_empty_text_def js_def startsWith_def
        includes_unit_def indexOf_def substring_def substring_from_def trim_def
        is_white_space_def obj_set_def save_entry_def parse_line_def parse_lines_def
        initial_parse_state_def parseManifest_def Let_def)

subsection \<open>The value a key line and its continuation lines leave in the mapping\<close>

lemma parse_line_key_line:
  "\<not> startsWith l 32 \<Longrightarrow> includes_unit l 58 \<Longrightarrow>
   parse_line st l =
     (save_entry st)\<lparr>currentKey := trim (substring l 0 (indexOf l 58)),
                       currentValue := substring_from l (indexOf l 58 + 1)\<rparr>"
  by (simp add: parse_line_def Let_def)

lemma parse_line_other:
  "startsWith l 32 \<or> \<not> includes_unit l 58 \<Longrightarrow>
   parse_line st l =
     st\<lparr>currentValue := currentValue st @ concat (map (drop 1) (filter (\<lambda>l. startsWith l 32) [l]))\<rparr>"
  by (auto simp: parse_line_def substring_from_1)

lemma parse_lines_between_keys:
  "\<forall>l \<in> set mid. startsWith l 32 \<or> \<not> includes_unit l 58 \<Longrightarrow>
   parse_lines st mid =
     st\<lparr>currentValue :=
          currentValue st @ concat (map (drop 1) (filter (\<lambda>l. startsWith l 32) mid))\<rparr>"
  unfolding parse_lines_def
proof (induction mid arbitrary: st)
  case Nil
  show ?case by simp
next
  case (Cons l mid)
  then have a: "startsWith l 32 \<or> \<not> includes_unit l 58"
    and rest: "\<forall>l \<in> set mid. startsWith l 32 \<or> \<not> includes_unit l 58" by auto
  show ?case
    using Cons.IH [OF rest, of "parse_line st l"] parse_line_other [OF a, of st]
    by (cases "startsWith l 32") simp_all
qed

lemma parse_lines_append: "parse_lines st (xs @ ys) = parse_lines (parse_lines st xs) ys"
  by (simp add: parse_lines_def)

lemma save_entry_other_key:
  "currentKey st \<noteq> k \<Longrightarrow> obj_get (manifest (save_entry st)) k = obj_get (manifest st) k"
  by (simp add: save_entry_def obj_set_def obj_get_def update_conv')

lemma save_entry_fields [simp]:
  "currentKey (save_entry st) = currentKey st" "currentValue (save_entry st) = currentValue st"
  by (simp_all add: save_entry_def)

lemma parse_line_keeps_binding:
  assumes "obj_get (manifest st) k = Some v" and "currentKey st \<noteq> k"
    and "\<not> startsWith l 32 \<and> includes_unit l 58 \<longrightarrow> trim (substring l 0 (indexOf l 58)) \<noteq> k"
  shows "obj_get (manifest (parse_line st l)) k = Some v \<and> currentKey (parse_line st l) \<noteq> k"
  using assms by (auto simp: parse_line_def Let_def save_entry_other_key)

lemma parse_lines_keeps_binding:
  assumes "obj_get (manifest st) k = Some v" and "currentKey st \<noteq> k"
    and "\<forall>l \<in> set ls. \<not> startsWith l 32 \<and> includes_unit l 58 \<longrightarrow>
           trim (substring l 0 (indexOf l 58)) \<noteq> k"
  shows "obj_get (manifest (parse_lines st ls)) k = Some v \<and> currentKey (parse_lines st ls) \<noteq> k"
  using assms unfolding parse_lines_def
proof (induction ls arbitrary: st)
  case Nil
  then show ?case by simp
next
  case (Cons l ls)
  have "obj_get (manifest (parse_line st l)) k = Some v \<and> currentKey (parse_line st l) \<noteq> k"
    using Cons.prems by (intro parse_line_keeps_binding) auto
  then show ?case using Cons.IH [of "parse_line st l"] Cons.prems(3) by simp
qed

lemma save_entry_stores:
  "currentKey st \<noteq> [] \<Longrightarrow> currentKey st \<noteq> js ''__proto__'' \<Longrightarrow>
   obj_get (manifest (save_entry st)) (currentKey st) = Some (trim (currentValue st))"
  by (simp add: save_entry_def obj_set_def obj_get_def update_conv')

lemma parseManifest_folded_value:
  assumes lines: "split_lines content = pre @ [kl] @ mid @ post"
    and kl: "\<not> startsWith kl 32" "includes_unit kl 58"
    and key: "trim (substring kl 0 (indexOf kl 58)) \<noteq> []"
             "trim (substring kl 0 (indexOf kl 58)) \<noteq> js ''__proto__''"
    and mid: "\<forall>l \<in> set mid. startsWith l 32 \<or> \<not> includes_unit l 58"
    and post_hd: "post = [] \<or> (\<not> startsWith (hd post) 32 \<and> includes_unit (hd post) 58)"
    and post: "\<forall>l \<in> set post. \<not> startsWith l 32 \<and> includes_unit l 58 \<longrightarrow>
                 trim (substring l 0 (indexOf l 58)) \<noteq> trim (substring kl 0 (indexOf kl 58))"
  shows "obj_get (parseManifest content) (trim (substring kl 0 (indexOf kl 58))) =
           Some (trim (substring_from kl (indexOf kl 58 + 1) @
                       concat (map (drop 1) (filter (\<lambda>l. startsWith l 32) mid))))"
proof -
  let ?k = "trim (substring kl 0 (indexOf kl 58))"
  let ?v = "substring_from kl (indexOf kl 58 + 1) @
              concat (map (drop 1) (filter (\<lambda>l. startsWith l 32) mid))"
  let ?s0 = "parse_lines initial_parse_state pre"
  let ?s1 = "parse_line ?s0 kl"
  let ?s2 = "parse_lines ?s1 mid"
  have s1: "currentKey ?s1 = ?k" "currentValue ?s1 = substring_from kl (indexOf kl 58 + 1)"
    by (simp_all add: parse_line_key_line [OF kl])
  have s2: "?s2 = ?s1\<lparr>currentValue := ?v\<rparr>"
    using parse_lines_between_keys [OF mid, of ?s1] s1 by simp
  then have k2: "currentKey ?s2 = ?k" and v2: "currentValue ?s2 = ?v"
    using s1 by simp_all
  have all: "parse_lines initial_parse_state (split_lines content) = parse_lines ?s2 post"
    unfolding lines by (simp add: parse_lines_def)
  show ?thesis
  proof (cases post)
    case Nil
    have "parseManifest content = manifest (save_entry ?s2)"
      unfolding parseManifest_def all Nil by (simp add: parse_lines_def)
    moreover have "obj_get (manifest (save_entry ?s2)) (currentKey ?s2) =
        Some (trim (currentValue ?s2))"
      using key k2 by (intro save_entry_stores) simp_all
    ultimately show ?thesis by (simp add: k2 v2)
  next
    case (Cons p ps)
    with post_hd have p: "\<not> startsWith p 32" "includes_unit p 58" by simp_all
    let ?s3 = "parse_line ?s2 p"
    have pk: "trim (substring p 0 (indexOf p 58)) \<noteq> ?k"
      using post Cons p by simp
    have "obj_get (manifest (save_entry ?s2)) (currentKey ?s2) = Some (trim (currentValue ?s2))"
      using key k2 by (intro save_entry_stores) simp_all
    then have b3: "obj_get (manifest ?s3) ?k = Some (trim ?v)"
      by (simp add: parse_line_key_line [OF p] k2 v2)
    have c3: "currentKey ?s3 \<noteq> ?k"
      using pk by (simp add: parse_line_key_line [OF p])
    have rest: "\<forall>l \<in> set ps. \<not> startsWith l 32 \<and> includes_unit l 58 \<longrightarrow>
           trim (substring l 0 (indexOf l 58)) \<noteq> ?k"
      using post Cons by simp
    have keep: "obj_get (manifest (parse_lines ?s3 ps)) ?k = Some (trim ?v) \<and>
          currentKey (parse_lines ?s3 ps) \<noteq> ?k"
      by (rule parse_lines_keeps_binding [OF b3 c3 rest])
    have "parseManifest content = manifest (save_entry (parse_lines ?s3 ps))"
      unfolding parseManifest_def all Cons by (simp add: parse_lines_def)
    with keep show ?thesis by (simp add: save_entry_other_key)
  qed
qed

lemma folded_manifest_lines:
  "split_lines folded_manifest =
     [js ''Manifest-Version: 1.0'', []] @ [js ''MIDlet-Name: My''] @
     [js ''  Game'', js ''no colon here'', js ''  Over  ''] @ [js ''MIDlet-1: A, , B'', []]"
  by (simp add: folded_manifest_def js_def)

lemma folded_manifest_key_line:
  "\<not> startsWith (js ''MIDlet-Name: My'') 32" "includes_unit (js ''MIDlet-Name: My'') 58"
  "trim (substring (js ''MIDlet-Name: My'') 0 (indexOf (js ''MIDlet-Name: My'') 58)) =
     js ''MIDlet-Name''"
  "substring_from (js ''MIDlet-Name: My'') (indexOf (js ''MIDlet-Name: My'') 58 + 1) = js '' My''"
  by (simp_all add: js_def startsWith_def includes_unit_def indexOf_def substring_def
        substring_from_def trim_def is_white_space_def Let_def)

lemma folded_manifest_other_lines:
  "\<forall>l \<in> set [js ''  Game'', js ''no colon here'', js ''  Over  ''].
      startsWith l 32 \<or> \<not> includes_unit l 58"
  "\<not> startsWith (hd [js ''MIDlet-1: A, , B'', []]) 32 \<and>
   includes_unit (hd [js ''MIDlet-1: A, , B'', []]) 58"
  "\<forall>l \<in> set [js ''MIDlet-1: A, , B'', []]. \<not> startsWith l 32 \<and> includes_unit l 58 \<longrightarrow>
      trim (substring l 0 (indexOf l 58)) \<noteq> js ''MIDlet-Name''"
  "concat (map (drop 1) (filter (\<lambda>l. startsWith l 32)
      [js ''  Game'', js ''no colon here'', js ''  Over  ''])) = js '' Game Over  ''"
  "trim (js '' My'' @ js '' Game Over  '') = js ''My Game Over''"
  by (simp_all add: js_def startsWith_def includes_unit_def indexOf_def substring_def
        substring_from_def trim_def is_white_space_def Let_def)

section \<open>The manifest parser: claims\<close>

text \<open>
  Claim C1, as the code has it.  The derived \<open>className\<close> of a manifest returned by
  \<open>parseJAD\<close> or \<open>parseJAR\<close> is the class name of the first MIDlet entry when there is
  one and its class name is not empty, and the fixed name \<open>Start\<close> otherwise (no entry, or a
  first entry whose class name is empty: \<open>midlets[0]?.className || "Start"\<close>).  An empty
  entry list is no error: \<open>parseJAD\<close> always returns, and \<open>parseJAR\<close> returns a manifest
  whenever the archive loads and its \<open>META-INF/MANIFEST.MF\<close> can be read.
\<close>

theorem C1_className:
  "JARManifest.className (parseJAD content) =
     (case midlets (parseJAD content) of
        [] \<Rightarrow> js ''Start''
      | m # _ \<Rightarrow> if MIDletInfo.className m \<noteq> [] then MIDletInfo.className m else js ''Start'') \<and>
   (loadAsync file = Inr contents \<and>
    zip_file contents (js ''META-INF/MANIFEST.MF'') = Some (Inr text) \<longrightarrow>
      (\<exists>m. parseJAR file = Inr m \<and>
           JARManifest.className m =
             (case midlets m of
                [] \<Rightarrow> js ''Start''
              | e # _ \<Rightarrow> if MIDletInfo.className e \<noteq> [] then MIDletInfo.className e
                        else js ''Start'')))"
  by (simp add: parseJAD_def parseJAR_def build_manifest_def Let_def first_className_cases)

text \<open>
  C1 at concrete inputs: a descriptor and an archive that declare no MIDlet both parse, with
  \<open>Start\<close> as class name.
\<close>

theorem C1_className_witness:
  "midlets (parseJAD (js ''MIDlet-Name: Demo'')) = [] \<and>
   JARManifest.className (parseJAD (js ''MIDlet-Name: Demo'')) = js ''Start'' \<and>
   (\<exists>m. parseJAR plain_jar = Inr m \<and> midlets m = [] \<and> JARManifest.className m = js ''Start'')"
proof -
  have m: "midlets (parseJAD (js ''MIDlet-Name: Demo'')) = []"
    by (simp add: parseJAD_def build_manifest_def first_className_def js_def startsWith_def
          includes_unit_def indexOf_def substring_def substring_from_def trim_def
          is_white_space_def obj_set_def save_entry_def parse_line_def parse_lines_def
          initial_parse_state_def parseManifest_def Let_def obj_get_def midlet_key_def
          show_nat.simps parseMIDletEntries_loop.simps parseMIDletEntries_def truthy_def)
  have l: "loadAsync plain_jar = Inr [(js ''META-INF/MANIFEST.MF'', Inr (js ''Manifest-Version: 1.0''))]"
    by (simp add: plain_jar_def)
  have z: "zip_file [(js ''META-INF/MANIFEST.MF'', Inr (js ''Manifest-Version: 1.0''))]
             (js ''META-INF/MANIFEST.MF'') = Some (Inr (js ''Manifest-Version: 1.0''))"
    by (simp add: zip_file_def)
  have j: "midlets (build_manifest n (parseManifest (js ''Manifest-Version: 1.0''))) = []" for n
    by (simp add: parseJAD_def build_manifest_def first_className_def js_def startsWith_def
          includes_unit_def indexOf_def substring_def substring_from_def trim_def
          is_white_space_def obj_set_def save_entry_def parse_line_def parse_lines_def
          initial_parse_state_def parseManifest_def Let_def obj_get_def midlet_key_def
          show_nat.simps parseMIDletEntries_loop.simps parseMIDletEntries_def truthy_def)
  have "\<exists>m. parseJAR plain_jar = Inr m \<and> midlets m = [] \<and> JARManifest.className m = js ''Start''"
    using C1_className [of "js ''MIDlet-Name: Demo''" plain_jar
        "[(js ''META-INF/MANIFEST.MF'', Inr (js ''Manifest-Version: 1.0''))]"
        "js ''Manifest-Version: 1.0''"] l z j
    by (auto simp: parseJAR_def)
  with m C1_className [of "js ''MIDlet-Name: Demo''"] show ?thesis by simp
qed

text \<open>
  C1 as the specification words it (the class name of the first declared entry, \<open>Start\<close> only
  when no entry was declared) fails for the descriptor \<open>MIDlet-1: Game, /icon.png\<close>: one entry
  is declared, its class name is empty, and the derived class name is \<open>Start\<close>.
\<close>

theorem C1_counterexample:
  "midlets (parseJAD (js ''MIDlet-1: Game, /icon.png'')) =
     [\<lparr>name = js ''Game'', icon = Some (js ''/icon.png''), className = []\<rparr>] \<and>
   JARManifest.className (parseJAD (js ''MIDlet-1: Game, /icon.png'')) = js ''Start'' \<and>
   JARManifest.className (parseJAD (js ''MIDlet-1: Game, /icon.png'')) \<noteq>
     MIDletInfo.className (hd (midlets (parseJAD (js ''MIDlet-1: Game, /icon.png''))))"
  by (simp add: parseJAD_def build_manifest_def first_className_def js_def startsWith_def
        includes_unit_def indexOf_def substring_def substring_from_def trim_def
        is_white_space_def obj_set_def save_entry_def parse_line_def parse_lines_def
        initial_parse_state_def parseManifest_def Let_def obj_get_def midlet_key_def
        show_nat.simps parseMIDletEntries_loop.simps parseMIDletEntries_def truthy_def
        midlet_entry_def at_index_def or_default_def)

text \<open>
  Claim C2, as the code has it.  The loop test \<open>while (manifest[`MIDlet-${i}`])\<close> is a
  truthiness test, so an index counts only when its key is bound to a non-empty string.  If
  the keys \<open>MIDlet-1\<close> to \<open>MIDlet-n\<close> are bound to non-empty strings and \<open>MIDlet-(n+1)\<close> is
  missing or bound to the empty string, \<open>parseMIDletEntries\<close> returns exactly the \<open>n\<close> entries
  of the indices \<open>1 .. n\<close>, in that order; whatever is bound at later indices is ignored.
  With \<open>k = n + 1\<close> the first such index, the list has \<open>k - 1\<close> entries.
\<close>

theorem C2_contiguous_entries:
  assumes "\<forall>i. 1 \<le> i \<and> i \<le> n \<longrightarrow> (\<exists>v. obj_get obj (midlet_key i) = Some v \<and> v \<noteq> [])"
    and "obj_get obj (midlet_key (Suc n)) = None \<or> obj_get obj (midlet_key (Suc n)) = Some []"
  shows "parseMIDletEntries obj =
           map (\<lambda>i. midlet_entry i (the (obj_get obj (midlet_key i)))) [1..<Suc n]"
proof -
  have a: "\<forall>j. 1 \<le> j \<and> j < 1 + n \<longrightarrow> truthy (obj_get obj (midlet_key j))"
    using assms(1) by (auto simp: truthy_def)
  have b: "\<not> truthy (obj_get obj (midlet_key (1 + n)))"
    using assms(2) by (auto simp: truthy_def)
  show ?thesis
    unfolding parseMIDletEntries_def using loop_entries [OF a b, of "[]"] by simp
qed

text \<open>
  C2 at a concrete input: entries 1 and 2, a gap at 3, and an entry at 4 that is ignored.
\<close>

theorem C2_contiguous_entries_witness:
  "obj_get two_midlets (midlet_key 3) = None \<and>
   obj_get two_midlets (midlet_key 4) = Some (js ''Pong, /pong.png, game.Pong'') \<and>
   parseMIDletEntries two_midlets =
     [\<lparr>name = js ''Snake'', icon = Some (js ''/snake.png''), className = js ''game.Snake''\<rparr>,
      \<lparr>name = js ''Tetris'', icon = None, className = []\<rparr>]"
proof -
  have a: "\<forall>i. 1 \<le> i \<and> i \<le> 2 \<longrightarrow> (\<exists>v. obj_get two_midlets (midlet_key i) = Some v \<and> v \<noteq> [])"
  proof (intro allI impI)
    fix i :: nat assume "1 \<le> i \<and> i \<le> 2"
    then have "i = 1 \<or> i = 2" by auto
    then show "\<exists>v. obj_get two_midlets (midlet_key i) = Some v \<and> v \<noteq> []"
      using two_midlets_get by (auto simp: js_def)
  qed
  have b: "obj_get two_midlets (midlet_key (Suc 2)) = None \<or> obj_get two_midlets (midlet_key (Suc 2)) = Some []"
    using two_midlets_get(3) by (simp add: eval_nat_numeral)
  have u: "[1..<Suc 2] = [1, 2]" by (simp add: upt_rec)
  have e1: "midlet_entry 1 (js ''Snake, /snake.png, game.Snake'') =
      \<lparr>name = js ''Snake'', icon = Some (js ''/snake.png''), className = js ''game.Snake''\<rparr>"
    by (simp add: midlet_entry_def js_def trim_def is_white_space_def at_index_def truthy_def
          or_default_def show_nat.simps Let_def)
  have e2: "midlet_entry 2 (js ''Tetris'') = \<lparr>name = js ''Tetris'', icon = None, className = []\<rparr>"
    by (simp add: midlet_entry_def js_def trim_def is_white_space_def at_index_def truthy_def
          or_default_def show_nat.simps Let_def)
  have "parseMIDletEntries two_midlets =
     [\<lparr>name = js ''Snake'', icon = Some (js ''/snake.png''), className = js ''game.Snake''\<rparr>,
      \<lparr>name = js ''Tetris'', icon = None, className = []\<rparr>]"
    using C2_contiguous_entries [OF a b, unfolded u list.map two_midlets_get option.sel]
    by (simp only: e1 e2)
  with two_midlets_get(3,4) show ?thesis by simp
qed

text \<open>
  C2 as the specification words it (a mapping that contains the keys \<open>MIDlet-1 .. MIDlet-n\<close>
  gives \<open>n\<close> entries) fails for the manifest text \<open>MIDlet-1:\<close>: the parsed mapping contains
  the key \<open>MIDlet-1\<close> and no key \<open>MIDlet-2\<close>, so \<open>n = 1\<close>, and no entry is returned.
\<close>

theorem C2_counterexample:
  "obj_get (parseManifest (js ''MIDlet-1:'')) (midlet_key 1) = Some [] \<and>
   obj_get (parseManifest (js ''MIDlet-1:'')) (midlet_key 2) = None \<and>
   parseMIDletEntries (parseManifest (js ''MIDlet-1:'')) = [] \<and>
   length (parseMIDletEntries (parseManifest (js ''MIDlet-1:''))) \<noteq> 1"
  by (simp add: js_def startsWith_def includes_unit_def indexOf_def substring_def
        substring_from_def trim_def is_white_space_def obj_set_def save_entry_def
        parse_line_def parse_lines_def initial_parse_state_def parseManifest_def Let_def
        obj_get_def midlet_key_def show_nat.simps parseMIDletEntries_loop.simps
        parseMIDletEntries_def truthy_def)

text \<open>
  Claim C3.  \<open>parseScreenSize\<close> returns 176 x 220 for a manifest with
  \<open>MIDlet-Screen-Width\<close> = 176 and \<open>MIDlet-Screen-Height\<close> = 220; it returns 128 x 128 for a
  manifest with \<open>Nokia-MIDlet-Canvas-Size\<close> = 128x128 and neither explicit field; and it
  returns the default 240 x 320 for a manifest with none of the three fields.
\<close>

theorem C3_screen_size:
  "(obj_get obj (js ''MIDlet-Screen-Width'') = Some (js ''176'') \<and>
    obj_get obj (js ''MIDlet-Screen-Height'') = Some (js ''220'') \<longrightarrow>
      parseScreenSize obj = \<lparr>width = Num 176, height = Num 220\<rparr>) \<and>
   (obj_get obj (js ''MIDlet-Screen-Width'') = None \<and>
    obj_get obj (js ''MIDlet-Screen-Height'') = None \<and>
    obj_get obj (js ''Nokia-MIDlet-Canvas-Size'') = Some (js ''128x128'') \<longrightarrow>
      parseScreenSize obj = \<lparr>width = Num 128, height = Num 128\<rparr>) \<and>
   (obj_get obj (js ''MIDlet-Screen-Width'') = None \<and>
    obj_get obj (js ''MIDlet-Screen-Height'') = None \<and>
    obj_get obj (js ''Nokia-MIDlet-Canvas-Size'') = None \<longrightarrow>
      parseScreenSize obj = \<lparr>width = Num 240, height = Num 320\<rparr>)"
proof -
  have p176: "parseInt (js ''176'') = Num 176" by (simp add: js_def parseInt_def
        startsWith_def is_white_space_def is_digit_def digits_value_def Let_def)
  have p220: "parseInt (js ''220'') = Num 220" by (simp add: js_def parseInt_def
        startsWith_def is_white_space_def is_digit_def digits_value_def Let_def)
  have p128: "parseInt (js ''128'') = Num 128" by (simp add: js_def parseInt_def
        startsWith_def is_white_space_def is_digit_def digits_value_def Let_def)
  have sp: "split_on 120 (js ''128x128'') = [js ''128'', js ''128'']" by (simp add: js_def)
  have t: "truthy (Some (js ''176''))" "truthy (Some (js ''220''))" "truthy (Some (js ''128''))"
    "\<not> truthy None"
    by (simp_all add: truthy_def js_def)
  show ?thesis
    by (intro conjI impI)
       (simp_all add: parseScreenSize_def canvas_size_part_def or_else_def t p176 p220 p128 sp
          at_index_def)
qed

text \<open>
  C3 at three parsed manifests, one for each case.
\<close>

theorem C3_screen_size_witness:
  "parseScreenSize (parseManifest (js ''MIDlet-Screen-Width: 176\<newline>MIDlet-Screen-Height: 220'')) =
     \<lparr>width = Num 176, height = Num 220\<rparr> \<and>
   parseScreenSize (parseManifest (js ''Nokia-MIDlet-Canvas-Size: 128x128'')) =
     \<lparr>width = Num 128, height = Num 128\<rparr> \<and>
   parseScreenSize (parseManifest (js ''MIDlet-Name: Demo'')) =
     \<lparr>width = Num 240, height = Num 320\<rparr>"
proof -
  have a: "parseManifest (js ''MIDlet-Screen-Width: 176\<newline>MIDlet-Screen-Height: 220'') =
     [(js ''MIDlet-Screen-Width'', js ''176''), (js ''MIDlet-Screen-Height'', js ''220'')]"
    by (simp add: js_def startsWith_def includes_unit_def indexOf_def substring_def
          substring_from_def trim_def is_white_space_def obj_set_def save_entry_def
          parse_line_def parse_lines_def initial_parse_state_def parseManifest_def Let_def)
  have b: "parseManifest (js ''Nokia-MIDlet-Canvas-Size: 128x128'') =
     [(js ''Nokia-MIDlet-Canvas-Size'', js ''128x128'')]"
    by (simp add: js_def startsWith_def includes_unit_def indexOf_def substring_def
          substring_from_def trim_def is_white_space_def obj_set_def save_entry_def
          parse_line_def parse_lines_def initial_parse_state_def parseManifest_def Let_def)
  have c: "parseManifest (js ''MIDlet-Name: Demo'') = [(js ''MIDlet-Name'', js ''Demo'')]"
    by (simp add: js_def startsWith_def includes_unit_def indexOf_def substring_def
          substring_from_def trim_def is_white_space_def obj_set_def save_entry_def
          parse_line_def parse_lines_def initial_parse_state_def parseManifest_def Let_def)
  show ?thesis
    unfolding a b c
    using C3_screen_size [of "[(js ''MIDlet-Screen-Width'', js ''176''), (js ''MIDlet-Screen-Height'', js ''220'')]"]
      C3_screen_size [of "[(js ''Nokia-MIDlet-Canvas-Size'', js ''128x128'')]"]
      C3_screen_size [of "[(js ''MIDlet-Name'', js ''Demo'')]"]
    by (simp add: obj_get_def js_def)
qed

text \<open>
  Claim C4.  (1) A run of continuation lines (first code unit a space) leaves the current key
  and the mapping alone and appends each line, without its first code unit and otherwise
  unchanged, to the current value.  (2) When an entry is saved, the value stored under the
  current key is the trimmed current value.  (3) Every value of the mapping \<open>parseManifest\<close>
  returns is trimmed: it neither starts nor ends with white space.  (4) A line is ended by
  CR LF as well as by LF alone or by the end of the text, and the parsed mapping is the same
  for CR LF and LF.  (5) For every
  text: take a key line \<open>kl\<close> of it (no leading space, a colon; its key not empty and not
  \<open>__proto__\<close>), the lines \<open>mid\<close> after it up to the next key line or the end, and let no
  later key line have the same key.  Then \<open>parseManifest\<close> binds the key of \<open>kl\<close> to the trimmed
  concatenation of what follows the colon in \<open>kl\<close> and of every continuation line of \<open>mid\<close>
  without its leading space, in order; the other lines of \<open>mid\<close> (no colon) add nothing.
\<close>

theorem C4_continuation_and_trim:
  "((\<forall>l \<in> set conts. startsWith l 32) \<longrightarrow>
      parse_lines st conts =
        st\<lparr>currentValue := currentValue st @ concat (map (drop 1) conts)\<rparr>) \<and>
   (currentKey st \<noteq> [] \<and> currentKey st \<noteq> js ''__proto__'' \<longrightarrow>
      obj_get (manifest (save_entry st)) (currentKey st) = Some (trim (currentValue st))) \<and>
   (obj_get (parseManifest content) k = Some v \<longrightarrow>
      trim v = v \<and> (v \<noteq> [] \<longrightarrow> \<not> is_white_space (hd v) \<and> \<not> is_white_space (last v))) \<and>
   (10 \<notin> set l \<and> (l = [] \<or> last l \<noteq> 13) \<longrightarrow>
      split_lines l = [l] \<and>
      split_lines (l @ [13, 10] @ rest) = l # split_lines rest \<and>
      split_lines (l @ [10] @ rest) = l # split_lines rest \<and>
      parseManifest (l @ [13, 10] @ rest) = parseManifest (l @ [10] @ rest)) \<and>
   (split_lines content' = pre @ [kl] @ mid @ post \<and>
    \<not> startsWith kl 32 \<and> includes_unit kl 58 \<and>
    trim (substring kl 0 (indexOf kl 58)) \<noteq> [] \<and>
    trim (substring kl 0 (indexOf kl 58)) \<noteq> js ''__proto__'' \<and>
    (\<forall>m \<in> set mid. startsWith m 32 \<or> \<not> includes_unit m 58) \<and>
    (post = [] \<or> (\<not> startsWith (hd post) 32 \<and> includes_unit (hd post) 58)) \<and>
    (\<forall>p \<in> set post. \<not> startsWith p 32 \<and> includes_unit p 58 \<longrightarrow>
       trim (substring p 0 (indexOf p 58)) \<noteq> trim (substring kl 0 (indexOf kl 58))) \<longrightarrow>
      obj_get (parseManifest content') (trim (substring kl 0 (indexOf kl 58))) =
        Some (trim (substring_from kl (indexOf kl 58 + 1) @
                    concat (map (drop 1) (filter (\<lambda>m. startsWith m 32) mid)))))"
proof (intro conjI impI)
  assume "\<forall>l \<in> set conts. startsWith l 32"
  then show "parse_lines st conts =
        st\<lparr>currentValue := currentValue st @ concat (map (drop 1) conts)\<rparr>"
    by (rule parse_lines_continuations)
next
  assume "currentKey st \<noteq> [] \<and> currentKey st \<noteq> js ''__proto__''"
  then show "obj_get (manifest (save_entry st)) (currentKey st) = Some (trim (currentValue st))"
    by (simp add: save_entry_def obj_set_def obj_get_def update_conv')
next
  assume g: "obj_get (parseManifest content) k = Some v"
  with values_trimmed_parseManifest [of content] show t: "trim v = v"
    by (simp add: values_trimmed_def)
  assume "v \<noteq> []"
  with t trim_no_leading [of v] show "\<not> is_white_space (hd v)" by simp
next
  assume g: "obj_get (parseManifest content) k = Some v" and "v \<noteq> []"
  with values_trimmed_parseManifest [of content] have t: "trim v = v"
    by (simp add: values_trimmed_def)
  with \<open>v \<noteq> []\<close> trim_no_trailing [of v] show "\<not> is_white_space (last v)" by simp
next
  assume h: "10 \<notin> set l \<and> (l = [] \<or> last l \<noteq> 13)"
  then show "split_lines l = [l]"
    by (simp add: split_lines_no_lf)
  from h show a: "split_lines (l @ [13, 10] @ rest) = l # split_lines rest"
    by (simp add: split_lines_crlf)
  from h show b: "split_lines (l @ [10] @ rest) = l # split_lines rest"
    by (simp add: split_lines_lf)
  from a b show "parseManifest (l @ [13, 10] @ rest) = parseManifest (l @ [10] @ rest)"
    by (simp add: parseManifest_def)
next
  assume h: "split_lines content' = pre @ [kl] @ mid @ post \<and>
    \<not> startsWith kl 32 \<and> includes_unit kl 58 \<and>
    trim (substring kl 0 (indexOf kl 58)) \<noteq> [] \<and>
    trim (substring kl 0 (indexOf kl 58)) \<noteq> js ''__proto__'' \<and>
    (\<forall>m \<in> set mid. startsWith m 32 \<or> \<not> includes_unit m 58) \<and>
    (post = [] \<or> (\<not> startsWith (hd post) 32 \<and> includes_unit (hd post) 58)) \<and>
    (\<forall>p \<in> set post. \<not> startsWith p 32 \<and> includes_unit p 58 \<longrightarrow>
       trim (substring p 0 (indexOf p 58)) \<noteq> trim (substring kl 0 (indexOf kl 58)))"
  show "obj_get (parseManifest content') (trim (substring kl 0 (indexOf kl 58))) =
        Some (trim (substring_from kl (indexOf kl 58 + 1) @
                    concat (map (drop 1) (filter (\<lambda>m. startsWith m 32) mid))))"
    by (rule parseManifest_folded_value) (use h in blast)+
qed

text \<open>
  C4 at concrete inputs: the value \<open>My\<close> of \<open>MIDlet-Name\<close> folded over two continuation
  lines, once with CR LF and once with LF after the first line; and a whole manifest with an
  empty line before the folded entry and a key line after it.
\<close>

theorem C4_continuation_and_trim_witness:
  "parse_lines name_pending [js ''  Game'', js ''  Over  ''] =
     name_pending\<lparr>currentValue := js '' My Game Over  ''\<rparr> \<and>
   obj_get (manifest (save_entry name_pending)) (js ''MIDlet-Name'') = Some (js ''My'') \<and>
   obj_get (parseManifest folded_crlf) (js ''MIDlet-Name'') = Some (js ''My Game Over'') \<and>
   trim (js ''My Game Over'') = js ''My Game Over'' \<and>
   parseManifest folded_crlf = parseManifest folded_lf \<and>
   obj_get (parseManifest folded_manifest) (js ''MIDlet-Name'') = Some (js ''My Game Over'')"
proof -
  note inst = C4_continuation_and_trim [of "[js ''  Game'', js ''  Over  '']" name_pending
      folded_crlf "js ''MIDlet-Name''" "js ''My Game Over''" "js ''MIDlet-Name: My''"
      "js ''  Game'' @ [13, 10] @ js ''  Over  ''" "[]" "[]" "[]" "[]" "[]"]
  note whole = C4_continuation_and_trim [of "[]" name_pending folded_crlf "[]" "[]" "[]" "[]"
      folded_manifest "[js ''Manifest-Version: 1.0'', []]" "js ''MIDlet-Name: My''"
      "[js ''  Game'', js ''no colon here'', js ''  Over  '']" "[js ''MIDlet-1: A, , B'', []]"]
  have k: "trim (substring (js ''MIDlet-Name: My'') 0 (indexOf (js ''MIDlet-Name: My'') 58)) \<noteq> []"
    "trim (substring (js ''MIDlet-Name: My'') 0 (indexOf (js ''MIDlet-Name: My'') 58)) \<noteq>
       js ''__proto__''"
    unfolding folded_manifest_key_line(3) by (simp_all add: js_def)
  have q: "\<forall>p \<in> set [js ''MIDlet-1: A, , B'', []]. \<not> startsWith p 32 \<and> includes_unit p 58 \<longrightarrow>
      trim (substring p 0 (indexOf p 58)) \<noteq>
      trim (substring (js ''MIDlet-Name: My'') 0 (indexOf (js ''MIDlet-Name: My'') 58))"
    unfolding folded_manifest_key_line(3) by (rule folded_manifest_other_lines(3))
  from whole folded_manifest_lines folded_manifest_key_line(1,2) k
    folded_manifest_other_lines(1,2) q
  have "obj_get (parseManifest folded_manifest)
          (trim (substring (js ''MIDlet-Name: My'') 0 (indexOf (js ''MIDlet-Name: My'') 58))) =
        Some (trim (substring_from (js ''MIDlet-Name: My'')
                      (indexOf (js ''MIDlet-Name: My'') 58 + 1) @
                    concat (map (drop 1) (filter (\<lambda>m. startsWith m 32)
                      [js ''  Game'', js ''no colon here'', js ''  Over  '']))))"
    by blast
  then have c5: "obj_get (parseManifest folded_manifest) (js ''MIDlet-Name'') =
      Some (js ''My Game Over'')"
    unfolding folded_manifest_key_line(3,4) folded_manifest_other_lines(4,5) .
  have h1: "\<forall>l \<in> set [js ''  Game'', js ''  Over  '']. startsWith l 32"
    by (simp add: js_def startsWith_def)
  have h2: "currentKey name_pending \<noteq> [] \<and> currentKey name_pending \<noteq> js ''__proto__''"
    by (simp add: name_pending_def js_def)
  have h3: "obj_get (parseManifest folded_crlf) (js ''MIDlet-Name'') = Some (js ''My Game Over'')"
    by (simp add: parse_folded obj_get_def)
  have h4: "10 \<notin> set (js ''MIDlet-Name: My'') \<and>
            (js ''MIDlet-Name: My'' = [] \<or> last (js ''MIDlet-Name: My'') \<noteq> 13)"
    by (simp add: js_def)
  from inst h1 have c1: "parse_lines name_pending [js ''  Game'', js ''  Over  ''] =
      name_pending\<lparr>currentValue := currentValue name_pending @
         concat (map (drop 1) [js ''  Game'', js ''  Over  ''])\<rparr>" by blast
  from inst h2 have c2: "obj_get (manifest (save_entry name_pending)) (currentKey name_pending) =
      Some (trim (currentValue name_pending))" by blast
  from inst h3 have c3: "trim (js ''My Game Over'') = js ''My Game Over''" by blast
  from inst h4 have c4: "parseManifest (js ''MIDlet-Name: My'' @ [13, 10] @ js ''  Game'' @ [13, 10] @ js ''  Over  '') =
      parseManifest (js ''MIDlet-Name: My'' @ [10] @ js ''  Game'' @ [13, 10] @ js ''  Over  '')" by blast
  have v: "currentValue name_pending @ concat (map (drop 1) [js ''  Game'', js ''  Over  '']) =
           js '' My Game Over  ''"
    by (simp add: name_pending_def js_def)
  have t: "trim (js '' My'') = js ''My''"
    by (simp add: js_def trim_def is_white_space_def)
  from c1 have "parse_lines name_pending [js ''  Game'', js ''  Over  ''] =
     name_pending\<lparr>currentValue := js '' My Game Over  ''\<rparr>" by (simp only: v)
  moreover from c2 have "obj_get (manifest (save_entry name_pending)) (js ''MIDlet-Name'') = Some (js ''My'')"
    by (simp only: name_pending_fields t)
  moreover from c4 have "parseManifest folded_crlf = parseManifest folded_lf"
    by (simp only: folded_crlf_def folded_lf_def)
  ultimately show ?thesis using h3 c3 c5 by blast
qed

text \<open>
  Claim C5.  When the archive loads and has no file entry at \<open>META-INF/MANIFEST.MF\<close>,
  \<open>parseJAR\<close> throws \<open>Error("Invalid JAR: MANIFEST.MF not found")\<close>: the result is the error
  and no manifest.
\<close>

theorem C5_missing_manifest:
  "loadAsync file = Inr contents \<Longrightarrow>
   zip_file contents (js ''META-INF/MANIFEST.MF'') = None \<Longrightarrow>
   parseJAR file = Inl (Error (js ''Invalid JAR: MANIFEST.MF not found''))"
  by (simp add: parseJAR_def)

text \<open>
  C5 at a concrete archive, whose only candidate has the path in lower case.
\<close>

theorem C5_missing_manifest_witness:
  "parseJAR no_manifest_jar = Inl (Error (js ''Invalid JAR: MANIFEST.MF not found''))"
proof -
  have l: "loadAsync no_manifest_jar =
             Inr [(js ''Main.class'', Inr (js ''code'')),
                  (js ''meta-inf/manifest.mf'', Inr (js ''MIDlet-1: A, , B''))]"
    by (simp add: no_manifest_jar_def)
  have z: "zip_file [(js ''Main.class'', Inr (js ''code'')),
                     (js ''meta-inf/manifest.mf'', Inr (js ''MIDlet-1: A, , B''))]
             (js ''META-INF/MANIFEST.MF'') = None"
    by (simp add: zip_file_def js_def)
  show ?thesis by (rule C5_missing_manifest [OF l z])
qed

text \<open>
  Claim C10, as the code has it.  A key \<open>MIDlet-k\<close> bound to the empty string ends the loop
  like a missing key: when the indices below \<open>k = n + 1\<close> are bound to non-empty strings, the
  entries returned are exactly the \<open>n = k - 1\<close> earlier ones; and the entries are those of the
  same mapping with that key removed.  The manifest built from the mapping (by \<open>parseJAD\<close> or
  \<open>parseJAR\<close>) is the one built from the mapping without the key in every field but
  \<open>rawManifest\<close>, which is the mapping itself and so still holds the key.
\<close>

theorem C10_empty_entry_stops:
  "(obj_get obj (midlet_key (Suc n)) = Some [] \<and>
    (\<forall>i. 1 \<le> i \<and> i \<le> n \<longrightarrow> (\<exists>v. obj_get obj (midlet_key i) = Some v \<and> v \<noteq> [])) \<longrightarrow>
      parseMIDletEntries obj =
        map (\<lambda>i. midlet_entry i (the (obj_get obj (midlet_key i)))) [1..<Suc n]) \<and>
   (obj_get obj (midlet_key k) = Some [] \<longrightarrow>
      parseMIDletEntries obj = parseMIDletEntries (AList.delete (midlet_key k) obj) \<and>
      build_manifest fallbackName obj =
        (build_manifest fallbackName (AList.delete (midlet_key k) obj))\<lparr>rawManifest := obj\<rparr>)"
proof (intro conjI impI)
  assume h: "obj_get obj (midlet_key (Suc n)) = Some [] \<and>
    (\<forall>i. 1 \<le> i \<and> i \<le> n \<longrightarrow> (\<exists>v. obj_get obj (midlet_key i) = Some v \<and> v \<noteq> []))"
  have a: "\<forall>j. 1 \<le> j \<and> j < 1 + n \<longrightarrow> truthy (obj_get obj (midlet_key j))"
    using h by (auto simp: truthy_def)
  have b: "\<not> truthy (obj_get obj (midlet_key (1 + n)))"
    using h by (auto simp: truthy_def)
  show "parseMIDletEntries obj =
        map (\<lambda>i. midlet_entry i (the (obj_get obj (midlet_key i)))) [1..<Suc n]"
    unfolding parseMIDletEntries_def using loop_entries [OF a b, of "[]"] by simp
next
  assume e: "obj_get obj (midlet_key k) = Some []"
  then show "parseMIDletEntries obj = parseMIDletEntries (AList.delete (midlet_key k) obj)"
    by (rule parseMIDletEntries_delete_empty)
next
  assume e: "obj_get obj (midlet_key k) = Some []"
  then have "parseMIDletEntries (AList.delete (midlet_key k) obj) = parseMIDletEntries obj"
    by (simp add: parseMIDletEntries_delete_empty)
  then show "build_manifest fallbackName obj =
        (build_manifest fallbackName (AList.delete (midlet_key k) obj))\<lparr>rawManifest := obj\<rparr>"
    by (simp add: build_manifest_def Let_def parseScreenSize_delete obj_get_delete
          midlet_key_not_named [THEN not_sym])
qed

text \<open>
  C10 at a parsed manifest: the line \<open>MIDlet-2:\<close> followed by blanks binds \<open>MIDlet-2\<close> to the
  empty string, and only the first entry is returned although \<open>MIDlet-3\<close> is declared.
\<close>

theorem C10_empty_entry_stops_witness:
  "obj_get (parseManifest empty_second_text) (midlet_key 2) = Some [] \<and>
   parseMIDletEntries (parseManifest empty_second_text) =
     [\<lparr>name = js ''Snake'', icon = Some (js ''/snake.png''), className = js ''game.Snake''\<rparr>] \<and>
   parseMIDletEntries (parseManifest empty_second_text) =
     parseMIDletEntries (AList.delete (midlet_key 2) (parseManifest empty_second_text))"
proof -
  have a: "\<forall>i. 1 \<le> i \<and> i \<le> 1 \<longrightarrow> (\<exists>v. obj_get empty_second (midlet_key i) = Some v \<and> v \<noteq> [])"
  proof (intro allI impI)
    fix i :: nat assume "1 \<le> i \<and> i \<le> 1"
    then have "i = 1" by auto
    then show "\<exists>v. obj_get empty_second (midlet_key i) = Some v \<and> v \<noteq> []"
      using empty_second_get(1) by (simp add: js_def)
  qed
  have b: "obj_get empty_second (midlet_key (Suc 1)) = Some []"
    using empty_second_get(2) by (simp add: eval_nat_numeral)
  have b2: "obj_get empty_second (midlet_key 2) = Some []"
    by (rule empty_second_get(2))
  have u: "[1..<Suc 1] = [1]" by (simp add: upt_rec)
  have e1: "midlet_entry 1 (js ''Snake, /snake.png, game.Snake'') =
      \<lparr>name = js ''Snake'', icon = Some (js ''/snake.png''), className = js ''game.Snake''\<rparr>"
    by (simp add: midlet_entry_def js_def trim_def is_white_space_def at_index_def truthy_def
          or_default_def show_nat.simps Let_def)
  note inst = C10_empty_entry_stops [of empty_second 1 2 "js ''Unknown''"]
  from inst b2 have del: "parseMIDletEntries empty_second =
      parseMIDletEntries (AList.delete (midlet_key 2) empty_second)" by blast
  from inst a b have "parseMIDletEntries empty_second =
      map (\<lambda>i. midlet_entry i (the (obj_get empty_second (midlet_key i)))) [1..<Suc 1]" by blast
  then have "parseMIDletEntries empty_second =
     [\<lparr>name = js ''Snake'', icon = Some (js ''/snake.png''), className = js ''game.Snake''\<rparr>]"
    unfolding u list.map empty_second_get option.sel by (simp only: e1)
  with del b2 show ?thesis by (simp only: parse_empty_second) 
qed

text \<open>
  C10 as the specification words it (a present but empty entry cannot be told from a missing
  index at the public interface) fails for \<open>parseJAD\<close>: a descriptor with the line \<open>MIDlet-2:\<close>
  and the same descriptor without it give the same entries, but their \<open>rawManifest\<close> fields,
  and so the two manifests, differ.
\<close>

theorem C10_counterexample:
  "obj_get (parseManifest one_entry_empty_text) (midlet_key 2) = Some [] \<and>
   obj_get (parseManifest one_entry_text) (midlet_key 2) = None \<and>
   midlets (parseJAD one_entry_empty_text) = midlets (parseJAD one_entry_text) \<and>
   rawManifest (parseJAD one_entry_empty_text) \<noteq> rawManifest (parseJAD one_entry_text) \<and>
   parseJAD one_entry_empty_text \<noteq> parseJAD one_entry_text"
proof -
  have g: "obj_get (parseManifest one_entry_empty_text) (midlet_key 2) = Some []"
    "obj_get (parseManifest one_entry_text) (midlet_key 2) = None"
    by (simp_all add: parse_one_entry obj_get_def midlet_key_def js_def show_nat.simps)
  have d: "AList.delete (midlet_key 2) (parseManifest one_entry_empty_text) =
           parseManifest one_entry_text"
    by (simp add: parse_one_entry midlet_key_def js_def show_nat.simps)
  have m: "midlets (parseJAD one_entry_empty_text) = midlets (parseJAD one_entry_text)"
    using parseMIDletEntries_delete_empty [OF g(1)]
    by (simp add: parseJAD_def build_manifest_def Let_def d)
  have r: "rawManifest (parseJAD one_entry_empty_text) \<noteq> rawManifest (parseJAD one_entry_text)"
    by (simp add: parseJAD_def build_manifest_def Let_def parse_one_entry)
  from r have "parseJAD one_entry_empty_text \<noteq> parseJAD one_entry_text" by auto
  with g m r show ?thesis by simp
qed

section \<open>Lemmas about the adapter\<close>

subsection \<open>The handle discipline is kept by every operation\<close>

lemma blob_url_nonempty: "blob_url ident \<noteq> []"
  by (simp add: blob_url_def js_def)

lemma card_le_one: "A \<subseteq> set_option r \<Longrightarrow> card A \<le> 1"
proof -
  assume a: "A \<subseteq> set_option r"
  have "card (set_option r) \<le> 1" by (cases r) simp_all
  moreover have "card A \<le> card (set_option r)" using a by (intro card_mono) simp_all
  ultimately show ?thesis by simp
qed

lemma card_le_Suc0: "A \<subseteq> set_option r \<Longrightarrow> card A \<le> Suc 0"
  using card_le_one [of A r] by simp

lemma diff_subset_empty: "A \<subseteq> B \<Longrightarrow> A - B = {}"
  by blast

lemma handles_ok_state [simp]:
  "handles_ok (setStatus s w) = handles_ok w"
  "handles_ok (setError e w) = handles_ok w"
  "handles_ok (setIsReady b w) = handles_ok w"
  "handles_ok (setDisplayElement d w) = handles_ok w"
  "handles_ok (w\<lparr>cheerpjInit_defined := x\<rparr>) = handles_ok w"
  by (simp_all add: handles_ok_def setStatus_def setError_def setIsReady_def
        setDisplayElement_def perform_def)

lemma handles_ok_perform_other:
  "(\<And>b u. e \<noteq> CreateObjectURL b u) \<Longrightarrow> (\<And>u. e \<noteq> RevokeObjectURL u) \<Longrightarrow>
   handles_ok (perform e w) = handles_ok w"
  by (cases e) (auto simp: handles_ok_def perform_def intro: card_le_Suc0)

lemma handles_ok_revoke_previous:
  "handles_ok w \<Longrightarrow>
   handles_ok (revoke_previous w) \<and> live_handles (trace (revoke_previous w)) = {} \<and>
   jarUrlRef (revoke_previous w) = jarUrlRef w"
  by (auto simp: handles_ok_def revoke_previous_def perform_def diff_subset_empty
           split: option.splits)

lemma handles_ok_create:
  "handles_ok w \<Longrightarrow> live_handles (trace w) = {} \<Longrightarrow>
   handles_ok ((perform (CreateObjectURL b (blob_url i)) w)\<lparr>jarUrlRef := Some (blob_url i)\<rparr>)"
  using blob_url_nonempty [of i] by (auto simp: handles_ok_def perform_def)

lemma handles_ok_loadScript: "handles_ok w \<Longrightarrow> handles_ok (snd (loadScript env w))"
  by (auto simp: loadScript_def Let_def handles_ok_perform_other split: script_event.splits)

lemma handles_ok_initialize: "handles_ok w \<Longrightarrow> handles_ok (snd (initialize c env w))"
proof -
  assume a: "handles_ok w"
  have "handles_ok (snd (loadScript env (setError None (setStatus Loading w))))"
    using a by (intro handles_ok_loadScript) simp
  then show ?thesis
    by (auto simp: initialize_def initialize_catch_def Let_def a handles_ok_perform_other
             split: prod.splits option.splits)
qed

lemma handles_ok_create_display:
  "handles_ok w \<Longrightarrow> handles_ok (snd (create_display sw sh env w))"
  by (auto simp: create_display_def Let_def handles_ok_perform_other split: option.splits
        sum.splits)

lemma handles_ok_loadJAR_try:
  "handles_ok w \<Longrightarrow> handles_ok (snd (loadJAR_try b cls sw sh env w))"
proof -
  assume a: "handles_ok w"
  let ?w1 = "revoke_previous (setStatus Loading w)"
  let ?w2 = "(perform (CreateObjectURL b (blob_url (object_url_id env))) ?w1)\<lparr>jarUrlRef := Some (blob_url (object_url_id env))\<rparr>"
  have "handles_ok ?w1 \<and> live_handles (trace ?w1) = {}"
    using handles_ok_revoke_previous [of "setStatus Loading w"] a by simp
  then have "handles_ok ?w2" by (simp add: handles_ok_create)
  then have "handles_ok (snd (create_display sw sh env ?w2))"
    by (rule handles_ok_create_display)
  then show ?thesis
    by (auto simp: loadJAR_try_def loadJAR_catch_def Let_def handles_ok_perform_other
             split: prod.splits option.splits)
qed

lemma handles_ok_loadJAR:
  "handles_ok w \<Longrightarrow> handles_ok (snd (loadJAR c b cls sw sh env w))"
  using handles_ok_initialize [of w c env] handles_ok_loadJAR_try
  by (auto simp: loadJAR_def Let_def split: prod.splits)

lemma handles_ok_stop:
  "handles_ok w \<Longrightarrow>
   handles_ok (stop w) \<and> live_handles (trace (stop w)) = {} \<and> jarUrlRef (stop w) = None \<and>
   status (state (stop w)) = Idle \<and> displayElement (state (stop w)) = None"
  by (auto simp: handles_ok_def stop_def Let_def setStatus_def setError_def setIsReady_def
        setDisplayElement_def perform_def diff_subset_empty split: option.splits)

lemma handles_ok_sendKeyEvent: "handles_ok w \<Longrightarrow> handles_ok (sendKeyEvent c k p w)"
  by (simp add: sendKeyEvent_def Let_def handles_ok_perform_other)

lemma handles_ok_unmount: "handles_ok w \<Longrightarrow> handles_ok (unmount w)"
  by (simp add: unmount_def handles_ok_revoke_previous)

lemma handles_ok_run_call: "handles_ok w \<Longrightarrow> handles_ok (run_call x w)"
  by (cases x)
     (simp_all add: handles_ok_initialize handles_ok_loadJAR handles_ok_stop
        handles_ok_sendKeyEvent handles_ok_unmount)

lemma handles_ok_run_calls: "handles_ok w \<Longrightarrow> handles_ok (run_calls xs w)"
  by (induction xs arbitrary: w) (simp_all add: handles_ok_run_call)

lemma handles_ok_mount: "handles_ok (mount container defined)"
  by (simp add: handles_ok_def mount_def)

lemma loadJAR_try_trace:
  "\<exists>later. trace (snd (loadJAR_try b cls sw sh env w)) =
      later @ CreateObjectURL b (blob_url (object_url_id env)) #
        trace (revoke_previous (setStatus Loading w)) \<and>
      (\<forall>e \<in> set later. (\<forall>b' u. e \<noteq> CreateObjectURL b' u) \<and> (\<forall>u. e \<noteq> RevokeObjectURL u))"
  by (auto simp: loadJAR_try_def loadJAR_catch_def create_display_def Let_def setStatus_def setError_def setIsReady_def setDisplayElement_def perform_def
           split: prod.splits option.splits sum.splits)

lemma live_handles_later:
  "\<forall>e \<in> set later. (\<forall>b' u. e \<noteq> CreateObjectURL b' u) \<and> (\<forall>u. e \<noteq> RevokeObjectURL u) \<Longrightarrow>
   live_handles (later @ es) = live_handles es"
proof (induction later)
  case Nil
  show ?case by simp
next
  case (Cons e later)
  then show ?case by (cases e) auto
qed

subsection \<open>initialize\<close>

lemma initialize_ready: "isReady c \<Longrightarrow> initialize c env w = (True, w)"
  by (simp add: initialize_def)

lemma initialize_success_ready:
  "isReady c \<longrightarrow> isReady (state w) \<Longrightarrow> fst (initialize c env w) \<Longrightarrow>
   isReady (state (snd (initialize c env w)))"
  by (auto simp: initialize_def initialize_catch_def Let_def setStatus_def setError_def setIsReady_def setDisplayElement_def perform_def
           split: if_splits prod.splits option.splits)

lemma loadScript_defined: "cheerpjInit_defined w \<Longrightarrow> loadScript env w = (None, w)"
  by (simp add: loadScript_def)

lemma initialize_success_trace:
  "\<not> isReady c \<Longrightarrow> fst (initialize c env w) \<Longrightarrow>
   trace (snd (initialize c env w)) =
     CheerpjInit # (if cheerpjInit_defined w then [] else [AppendScript CHEERPJ_CDN]) @ trace w"
  by (auto simp: initialize_def initialize_catch_def loadScript_def Let_def setStatus_def setError_def setIsReady_def setDisplayElement_def perform_def
           split: if_splits prod.splits option.splits script_event.splits)

lemma initialize_calls_ready:
  "isReady (state w) \<Longrightarrow> initialize_calls envs w = (replicate (length envs) True, w)"
  by (induction envs) (simp_all add: render_def initialize_ready)

text \<open>
  A callback kept from a render before the success still carries \<open>isReady = false\<close>: called
  again, it finds the global defined, injects nothing, and calls \<open>cheerpjInit\<close> again.  The
  idempotence of \<open>initialize\<close> is that of the callback the hook currently returns.
\<close>

lemma initialize_earlier_render:
  "\<not> isReady c \<Longrightarrow> cheerpjInit_defined w \<Longrightarrow> cheerpjInit_result env = None \<Longrightarrow>
   initialize c env w = (True, setStatus Idle (setIsReady True (perform CheerpjInit
      (setStatus Initializing (setError None (setStatus Loading w))))))"
  by (simp add: initialize_def loadScript_def setStatus_def setError_def setIsReady_def
        setDisplayElement_def perform_def)

subsection \<open>Failures of loadJAR\<close>

lemma loadJAR_try_thrown:
  "fst (loadJAR_try b cls sw sh env w) = Inl err \<Longrightarrow>
   status (state (snd (loadJAR_try b cls sw sh env w))) = Error_status \<and>
   error (state (snd (loadJAR_try b cls sw sh env w))) =
     Some (error_message err (js ''Failed to load JAR''))"
  by (auto simp: loadJAR_try_def loadJAR_catch_def Let_def setStatus_def setError_def setIsReady_def setDisplayElement_def perform_def
           split: prod.splits option.splits)

lemma containerRef_unchanged [simp]:
  "containerRef (perform e w) = containerRef w"
  "containerRef (revoke_previous w) = containerRef w"
  "containerRef (setStatus s w) = containerRef w"
  by (simp_all add: revoke_previous_def setStatus_def setError_def setIsReady_def
        setDisplayElement_def perform_def split: option.splits)

lemma loadJAR_try_display_fails:
  "containerRef w \<noteq> None \<Longrightarrow> createDisplay_result env = Inl err \<Longrightarrow>
   fst (loadJAR_try b cls sw sh env w) = Inl err"
  by (auto simp: loadJAR_try_def loadJAR_catch_def create_display_def Let_def
           split: prod.splits option.splits sum.splits)

lemma loadJAR_try_run_fails:
  "containerRef w = None \<or> (\<exists>d. createDisplay_result env = Inr d) \<Longrightarrow>
   runMain_result env = Some err \<Longrightarrow>
   fst (loadJAR_try b cls sw sh env w) = Inl err"
  by (auto simp: loadJAR_try_def loadJAR_catch_def create_display_def Let_def
           split: prod.splits option.splits sum.splits)

lemma initialize_failed_state:
  "\<not> fst (initialize c env w) \<Longrightarrow>
   status (state (snd (initialize c env w))) = Error_status \<and>
   error (state (snd (initialize c env w))) \<noteq> None"
  by (auto simp: initialize_def initialize_catch_def Let_def setStatus_def setError_def setIsReady_def setDisplayElement_def perform_def
           split: if_splits prod.splits option.splits)

subsection \<open>The concrete worlds, evaluated\<close>

lemma fresh_initialized:
  "initialize (render fresh) init_ok fresh =
     (True, \<lparr>state = \<lparr>status = Idle, error = None, isReady = True, displayElement = None\<rparr>,
             containerRef = Some 1, jarUrlRef = None, cheerpjInit_defined = True,
             trace = [CheerpjInit, AppendScript CHEERPJ_CDN]\<rparr>)"
  by (simp add: render_def loadScript_def initialize_catch_def initialize_def setStatus_def
        setError_def setIsReady_def perform_def mount_def error_message_def Let_def fresh_def
        init_ok_def)

lemma run_calls_append: "run_calls (xs @ ys) w = run_calls ys (run_calls xs w)"
  by (induction xs arbitrary: w) simp_all

lemma first_load_world:
  "run_calls first_load fresh =
     \<lparr>state = \<lparr>status = Running, error = None, isReady = True, displayElement = Some 7\<rparr>,
      containerRef = Some 1, jarUrlRef = Some (blob_url (js ''a1'')), cheerpjInit_defined = True,
      trace = [CheerpjRunMain (js ''game.Snake'') (js ''/app/'' @ blob_url (js ''a1'') @ js '':lib/''),
               CheerpjCreateDisplay (Num 240) (Num 320) 1,
               CreateObjectURL 1 (blob_url (js ''a1'')),
               CheerpjInit,
               AppendScript CHEERPJ_CDN]\<rparr>"
  by (simp add: first_load_def render_def loadScript_def initialize_catch_def initialize_def
        setStatus_def setError_def setIsReady_def perform_def mount_def error_message_def
        Let_def revoke_previous_def create_display_def loadJAR_catch_def loadJAR_try_def
        loadJAR_def setDisplayElement_def fresh_def first_render_def all_ok_def)

lemma two_loads_world:
  "run_calls two_loads fresh =
     \<lparr>state = \<lparr>status = Running, error = None, isReady = True, displayElement = Some 8\<rparr>,
      containerRef = Some 1, jarUrlRef = Some (blob_url (js ''b2'')), cheerpjInit_defined = True,
      trace = [CheerpjRunMain (js ''game.Pong'') (js ''/app/'' @ blob_url (js ''b2'') @ js '':lib/''),
               CheerpjCreateDisplay (Num 176) (Num 220) 1,
               CreateObjectURL 2 (blob_url (js ''b2'')),
               RevokeObjectURL (blob_url (js ''a1'')),
               CheerpjRunMain (js ''game.Snake'') (js ''/app/'' @ blob_url (js ''a1'') @ js '':lib/''),
               CheerpjCreateDisplay (Num 240) (Num 320) 1,
               CreateObjectURL 1 (blob_url (js ''a1'')),
               CheerpjInit,
               AppendScript CHEERPJ_CDN]\<rparr>"
  unfolding two_loads_def run_calls_append first_load_world
  using blob_url_nonempty [of "js ''a1''"]
  by (simp add: render_def loadScript_def initialize_catch_def initialize_def setStatus_def
        setError_def setIsReady_def perform_def mount_def error_message_def Let_def
        revoke_previous_def create_display_def loadJAR_catch_def loadJAR_try_def loadJAR_def
        setDisplayElement_def running_render_def all_ok_again_def)

lemma two_loads_stop_world:
  "run_calls two_loads_stop fresh =
     \<lparr>state = \<lparr>status = Idle, error = None, isReady = True, displayElement = None\<rparr>,
      containerRef = Some 1, jarUrlRef = None, cheerpjInit_defined = True,
      trace = [RevokeObjectURL (blob_url (js ''b2'')),
               CheerpjRunMain (js ''game.Pong'') (js ''/app/'' @ blob_url (js ''b2'') @ js '':lib/''),
               CheerpjCreateDisplay (Num 176) (Num 220) 1,
               CreateObjectURL 2 (blob_url (js ''b2'')),
               RevokeObjectURL (blob_url (js ''a1'')),
               CheerpjRunMain (js ''game.Snake'') (js ''/app/'' @ blob_url (js ''a1'') @ js '':lib/''),
               CheerpjCreateDisplay (Num 240) (Num 320) 1,
               CreateObjectURL 1 (blob_url (js ''a1'')),
               CheerpjInit,
               AppendScript CHEERPJ_CDN]\<rparr>"
  unfolding two_loads_stop_def run_calls_append two_loads_world
  using blob_url_nonempty [of "js ''b2''"]
  by (simp add: stop_def setStatus_def setDisplayElement_def perform_def Let_def)

lemma fresh_fields: "containerRef fresh = Some 1" "cheerpjInit_defined fresh = False"
  by (simp_all add: fresh_def mount_def)

lemma first_render_not_ready: "\<not> isReady first_render"
  by (simp add: first_render_def)

lemma fresh_init_rejects: "\<not> fst (initialize first_render init_rejects fresh)"
  by (simp add: render_def loadScript_def initialize_catch_def initialize_def setStatus_def
        setError_def setIsReady_def perform_def mount_def error_message_def Let_def fresh_def
        first_render_def init_rejects_def)

lemma fresh_init_accepts:
  "fst (initialize first_render run_rejects fresh)"
  "containerRef (snd (initialize first_render run_rejects fresh)) = Some 1"
  by (simp_all add: render_def loadScript_def initialize_catch_def initialize_def
        setStatus_def setError_def setIsReady_def perform_def mount_def error_message_def
        Let_def fresh_def first_render_def run_rejects_def)

subsection \<open>Failures inside loadJAR, for any closure\<close>

lemma containerRef_initialize: "containerRef (snd (initialize c env w)) = containerRef w"
  by (auto simp: initialize_def initialize_catch_def loadScript_def Let_def setStatus_def
        setError_def setIsReady_def perform_def split: script_event.splits option.splits)

lemma loadJAR_ready:
  "isReady c \<Longrightarrow> loadJAR c jarBlob mainClass screenW screenH env w =
     loadJAR_try jarBlob mainClass screenW screenH env w"
  by (simp add: loadJAR_def)

lemma loadJAR_initialized:
  "\<not> isReady c \<Longrightarrow> fst (initialize c env w) \<Longrightarrow>
   loadJAR c jarBlob mainClass screenW screenH env w =
     loadJAR_try jarBlob mainClass screenW screenH env (snd (initialize c env w))"
  by (cases "initialize c env w") (simp add: loadJAR_def)

lemma loadJAR_runs_try:
  "isReady c \<or> fst (initialize c env w) \<Longrightarrow>
   \<exists>w0. containerRef w0 = containerRef w \<and>
        loadJAR c jarBlob mainClass screenW screenH env w =
          loadJAR_try jarBlob mainClass screenW screenH env w0"
proof (cases "isReady c")
  case True
  then show ?thesis using loadJAR_ready by blast
next
  case False
  assume "isReady c \<or> fst (initialize c env w)"
  with False have "fst (initialize c env w)" by simp
  with False show ?thesis
    using loadJAR_initialized [of c env w] containerRef_initialize [of c env w] by blast
qed

lemma loadJAR_display_fails:
  assumes "isReady c \<or> fst (initialize c env w)"
    and "containerRef w \<noteq> None" and "createDisplay_result env = Inl err"
  shows "fst (loadJAR c jarBlob mainClass screenW screenH env w) = Inl err \<and>
     status (state (snd (loadJAR c jarBlob mainClass screenW screenH env w))) = Error_status \<and>
     error (state (snd (loadJAR c jarBlob mainClass screenW screenH env w))) =
       Some (error_message err (js ''Failed to load JAR''))"
proof -
  obtain w0 where c: "containerRef w0 = containerRef w"
    and e: "loadJAR c jarBlob mainClass screenW screenH env w =
          loadJAR_try jarBlob mainClass screenW screenH env w0"
    using loadJAR_runs_try [OF assms(1)] by blast
  have t: "fst (loadJAR_try jarBlob mainClass screenW screenH env w0) = Inl err"
    using assms(2,3) c by (intro loadJAR_try_display_fails) simp_all
  with loadJAR_try_thrown [OF t] show ?thesis by (simp add: e)
qed

lemma loadJAR_run_fails:
  assumes "isReady c \<or> fst (initialize c env w)"
    and "containerRef w = None \<or> (\<exists>d. createDisplay_result env = Inr d)"
    and "runMain_result env = Some err"
  shows "fst (loadJAR c jarBlob mainClass screenW screenH env w) = Inl err \<and>
     status (state (snd (loadJAR c jarBlob mainClass screenW screenH env w))) = Error_status \<and>
     error (state (snd (loadJAR c jarBlob mainClass screenW screenH env w))) =
       Some (error_message err (js ''Failed to load JAR''))"
proof -
  obtain w0 where c: "containerRef w0 = containerRef w"
    and e: "loadJAR c jarBlob mainClass screenW screenH env w =
          loadJAR_try jarBlob mainClass screenW screenH env w0"
    using loadJAR_runs_try [OF assms(1)] by blast
  have t: "fst (loadJAR_try jarBlob mainClass screenW screenH env w0) = Inl err"
    using assms(2,3) c by (intro loadJAR_try_run_fails) simp_all
  with loadJAR_try_thrown [OF t] show ?thesis by (simp add: e)
qed

section \<open>The engine adapter: claims\<close>

text \<open>
  Claim C6, as the code has it.  \<open>initialize\<close> tests the \<open>isReady\<close> its closure captured.
  (1) A call of \<open>initialize\<close> whose closure holds \<open>isReady\<close> returns \<open>true\<close> at
  once and leaves the world as it is: no state change, no script, no call of the engine.
  (2) After a call that returned \<open>true\<close>, the committed state has \<open>isReady\<close>, so every later call
  through the callback of the following render is such a call.  (The closure of the call is
  one of this hook: it holds \<open>isReady\<close> only if the state does, since \<open>isReady\<close> is never reset.)
  (3) Calls made one after the other, each through the callback of the render current at
  that time, the first of which succeeds on a hook that was not ready, all return \<open>true\<close>, and
  together they call \<open>cheerpjInit\<close> exactly once and inject the script exactly once (not at all
  when the global \<open>cheerpjInit\<close> was already defined).  A call that returns \<open>false\<close> leaves the
  hook not ready, and the next call starts over.  (4) When the global is defined,
  \<open>loadScript\<close> resolves without injecting anything.
\<close>

theorem C6_initialize_idempotent:
  "(isReady c \<longrightarrow> initialize c env w = (True, w)) \<and>
   ((isReady c \<longrightarrow> isReady (render w)) \<and> fst (initialize c env w) \<longrightarrow>
      isReady (render (snd (initialize c env w))) \<and>
      initialize (render (snd (initialize c env w))) env' (snd (initialize c env w)) =
        (True, snd (initialize c env w))) \<and>
   (\<not> isReady (render w) \<and> fst (initialize (render w) env w) \<longrightarrow>
      initialize_calls (env # envs) w =
        (replicate (Suc (length envs)) True, snd (initialize (render w) env w)) \<and>
      trace (snd (initialize_calls (env # envs) w)) =
        CheerpjInit # (if cheerpjInit_defined w then [] else [AppendScript CHEERPJ_CDN]) @ trace w) \<and>
   (cheerpjInit_defined w \<longrightarrow> loadScript env w = (None, w))"
proof (intro conjI impI)
  assume "isReady c" then show "initialize c env w = (True, w)" by (rule initialize_ready)
next
  assume s: "(isReady c \<longrightarrow> isReady (render w)) \<and> fst (initialize c env w)"
  then show r: "isReady (render (snd (initialize c env w)))"
    by (simp add: render_def initialize_success_ready)
  then show "initialize (render (snd (initialize c env w))) env' (snd (initialize c env w)) =
        (True, snd (initialize c env w))" by (rule initialize_ready)
next
  assume h: "\<not> isReady (render w) \<and> fst (initialize (render w) env w)"
  let ?w1 = "snd (initialize (render w) env w)"
  from h have "isReady (state ?w1)" by (simp add: initialize_success_ready render_def)
  then have rest: "initialize_calls envs ?w1 = (replicate (length envs) True, ?w1)"
    by (rule initialize_calls_ready)
  obtain r w1 where i: "initialize (render w) env w = (r, w1)"
    by (cases "initialize (render w) env w")
  with h rest show c: "initialize_calls (env # envs) w = (replicate (Suc (length envs)) True, ?w1)"
    by simp
  from h show "trace (snd (initialize_calls (env # envs) w)) =
        CheerpjInit # (if cheerpjInit_defined w then [] else [AppendScript CHEERPJ_CDN]) @ trace w"
    unfolding c by (simp add: initialize_success_trace)
next
  assume "cheerpjInit_defined w" then show "loadScript env w = (None, w)" by (rule loadScript_defined)
qed

text \<open>
  C6 at a freshly mounted hook: three calls in sequence, one \<open>cheerpjInit\<close> and one script;
  and a call after a first load, which changes nothing.
\<close>

theorem C6_initialize_idempotent_witness:
  "initialize_calls [init_ok, init_ok, init_ok] fresh =
     ([True, True, True], snd (initialize (render fresh) init_ok fresh)) \<and>
   trace (snd (initialize_calls [init_ok, init_ok, init_ok] fresh)) =
     [CheerpjInit, AppendScript CHEERPJ_CDN] \<and>
   initialize (render (run_calls first_load fresh)) init_ok (run_calls first_load fresh) =
     (True, run_calls first_load fresh) \<and>
   loadScript init_ok (mount (Some 1) True) = (None, mount (Some 1) True)"
proof -
  have h: "\<not> isReady (render fresh) \<and> fst (initialize (render fresh) init_ok fresh)"
    by (simp add: fresh_initialized) (simp add: render_def fresh_def mount_def)
  have d: "\<not> cheerpjInit_defined fresh" "trace fresh = []"
    by (simp_all add: fresh_def mount_def)
  have r: "isReady (render (run_calls first_load fresh))"
    by (simp add: render_def first_load_world)
  have m: "cheerpjInit_defined (mount (Some 1) True)" by (simp add: mount_def)
  have y: "replicate (Suc (length [init_ok, init_ok])) True = [True, True, True]"
    by simp
  have z: "CheerpjInit # (if cheerpjInit_defined fresh then [] else [AppendScript CHEERPJ_CDN]) @
             trace fresh = [CheerpjInit, AppendScript CHEERPJ_CDN]"
    by (simp add: d)
  from C6_initialize_idempotent [of "render fresh" init_ok fresh init_ok "[init_ok, init_ok]"] h
  have "initialize_calls [init_ok, init_ok, init_ok] fresh =
          (replicate (Suc (length [init_ok, init_ok])) True,
           snd (initialize (render fresh) init_ok fresh)) \<and>
        trace (snd (initialize_calls [init_ok, init_ok, init_ok] fresh)) =
          CheerpjInit # (if cheerpjInit_defined fresh then [] else [AppendScript CHEERPJ_CDN]) @
             trace fresh"
    by blast
  then have "initialize_calls [init_ok, init_ok, init_ok] fresh =
          ([True, True, True], snd (initialize (render fresh) init_ok fresh)) \<and>
        trace (snd (initialize_calls [init_ok, init_ok, init_ok] fresh)) =
          [CheerpjInit, AppendScript CHEERPJ_CDN]"
    unfolding y z .
  moreover
  from C6_initialize_idempotent [of "render (run_calls first_load fresh)" init_ok
      "run_calls first_load fresh" init_ok "[]"] r
  have "initialize (render (run_calls first_load fresh)) init_ok (run_calls first_load fresh) =
          (True, run_calls first_load fresh)" by blast
  moreover from C6_initialize_idempotent [of first_render init_ok "mount (Some 1) True" init_ok "[]"] m
  have "loadScript init_ok (mount (Some 1) True) = (None, mount (Some 1) True)" by blast
  ultimately show ?thesis by blast
qed

text \<open>
  C6 as the specification words it (every subsequent call returns at once) fails for the
  callback of the first render called a second time: it succeeded once, its closure still
  holds \<open>isReady = false\<close>, and the second call runs \<open>cheerpjInit\<close> again.
\<close>

theorem C6_counterexample:
  "first_render = render fresh \<and>
   fst (initialize first_render init_ok fresh) \<and>
   initialize first_render init_ok (snd (initialize first_render init_ok fresh)) \<noteq>
     (True, snd (initialize first_render init_ok fresh)) \<and>
   trace (snd (initialize first_render init_ok fresh)) = [CheerpjInit, AppendScript CHEERPJ_CDN] \<and>
   trace (snd (initialize first_render init_ok (snd (initialize first_render init_ok fresh)))) =
     [CheerpjInit, CheerpjInit, AppendScript CHEERPJ_CDN]"
proof -
  have r: "first_render = render fresh"
    by (simp add: first_render_def render_def fresh_def mount_def)
  have a: "initialize first_render init_ok fresh =
     (True, \<lparr>state = \<lparr>status = Idle, error = None, isReady = True, displayElement = None\<rparr>,
             containerRef = Some 1, jarUrlRef = None, cheerpjInit_defined = True,
             trace = [CheerpjInit, AppendScript CHEERPJ_CDN]\<rparr>)"
    unfolding r by (rule fresh_initialized)
  have b: "trace (snd (initialize first_render init_ok (snd (initialize first_render init_ok fresh)))) =
     [CheerpjInit, CheerpjInit, AppendScript CHEERPJ_CDN]"
    unfolding a
    by (simp add: loadScript_def initialize_def setStatus_def setError_def setIsReady_def
          perform_def Let_def first_render_def init_ok_def)
  have "snd (initialize first_render init_ok (snd (initialize first_render init_ok fresh))) \<noteq>
        snd (initialize first_render init_ok fresh)"
  proof
    assume "snd (initialize first_render init_ok (snd (initialize first_render init_ok fresh))) =
        snd (initialize first_render init_ok fresh)"
    then have "trace (snd (initialize first_render init_ok (snd (initialize first_render init_ok fresh)))) =
        trace (snd (initialize first_render init_ok fresh))" by simp
    then show False unfolding b by (simp add: a)
  qed
  then have c: "initialize first_render init_ok (snd (initialize first_render init_ok fresh)) \<noteq>
     (True, snd (initialize first_render init_ok fresh))" by auto
  from r a b c show ?thesis by simp
qed

text \<open>
  Claim C7.  After any sequence of calls of the hook's operations on a mounted hook (by any
  closure, with any answers of the environment): at no moment of the trace were two handles
  live; at most one is live now; inside \<open>loadJAR\<close> no handle is live at the moment the new one
  is created, and exactly the new one is live afterwards; \<open>stop\<close> leaves no live handle, clears
  \<open>jarUrlRef\<close> and sets the status to idle.
\<close>

theorem C7_one_live_handle:
  "at_most_one_live (trace (run_calls calls (mount container defined))) \<and>
   card (live_handles (trace (run_calls calls (mount container defined)))) \<le> 1 \<and>
   live_handles (trace (revoke_previous (setStatus Loading (run_calls calls (mount container defined))))) = {} \<and>
   live_handles (trace (snd (loadJAR_try jarBlob mainClass screenW screenH env
       (run_calls calls (mount container defined))))) = {blob_url (object_url_id env)} \<and>
   live_handles (trace (stop (run_calls calls (mount container defined)))) = {} \<and>
   jarUrlRef (stop (run_calls calls (mount container defined))) = None \<and>
   status (state (stop (run_calls calls (mount container defined)))) = Idle"
proof -
  let ?w = "run_calls calls (mount container defined)"
  have ok: "handles_ok ?w" by (intro handles_ok_run_calls handles_ok_mount)
  then have a: "at_most_one_live (trace ?w)" by (simp add: handles_ok_def)
  from ok have b: "card (live_handles (trace ?w)) \<le> 1"
    using card_le_one [of "live_handles (trace ?w)" "jarUrlRef ?w"] by (simp add: handles_ok_def)
  from ok have "handles_ok (setStatus Loading ?w)" by simp
  then have c: "live_handles (trace (revoke_previous (setStatus Loading ?w))) = {}"
    using handles_ok_revoke_previous by blast
  obtain later where l: "trace (snd (loadJAR_try jarBlob mainClass screenW screenH env ?w)) =
      later @ CreateObjectURL jarBlob (blob_url (object_url_id env)) #
        trace (revoke_previous (setStatus Loading ?w))"
    and n: "\<forall>e \<in> set later. (\<forall>b' u. e \<noteq> CreateObjectURL b' u) \<and> (\<forall>u. e \<noteq> RevokeObjectURL u)"
    using loadJAR_try_trace by blast
  have d: "live_handles (trace (snd (loadJAR_try jarBlob mainClass screenW screenH env ?w))) =
      {blob_url (object_url_id env)}"
    unfolding l by (simp add: live_handles_later [OF n] c)
  from ok a b c d handles_ok_stop [of ?w] show ?thesis by simp
qed

text \<open>
  C7 at a concrete run: two loads, then stop.  The first handle is revoked before the second
  is created, and the second is revoked by \<open>stop\<close>.
\<close>

theorem C7_one_live_handle_witness:
  "trace (run_calls two_loads_stop fresh) =
     [RevokeObjectURL (blob_url (js ''b2'')),
      CheerpjRunMain (js ''game.Pong'') (js ''/app/'' @ blob_url (js ''b2'') @ js '':lib/''),
      CheerpjCreateDisplay (Num 176) (Num 220) 1,
      CreateObjectURL 2 (blob_url (js ''b2'')),
      RevokeObjectURL (blob_url (js ''a1'')),
      CheerpjRunMain (js ''game.Snake'') (js ''/app/'' @ blob_url (js ''a1'') @ js '':lib/''),
      CheerpjCreateDisplay (Num 240) (Num 320) 1,
      CreateObjectURL 1 (blob_url (js ''a1'')),
      CheerpjInit,
      AppendScript CHEERPJ_CDN] \<and>
   at_most_one_live (trace (run_calls two_loads_stop fresh)) \<and>
   live_handles (trace (run_calls two_loads fresh)) = {blob_url (js ''b2'')} \<and>
   live_handles (trace (run_calls two_loads_stop fresh)) = {} \<and>
   jarUrlRef (run_calls two_loads_stop fresh) = None \<and>
   status (state (run_calls two_loads_stop fresh)) = Idle"
proof -
  note all = C7_one_live_handle [of two_loads_stop "Some 1" False 2 "js ''game.Pong''" "Num 176"
      "Num 220" all_ok_again, folded fresh_def]
  note two = C7_one_live_handle [of two_loads "Some 1" False 2 "js ''game.Pong''" "Num 176"
      "Num 220" all_ok_again, folded fresh_def]
  note one = C7_one_live_handle [of first_load "Some 1" False 2 "js ''game.Pong''" "Num 176"
      "Num 220" all_ok_again, folded fresh_def]
  have s: "run_calls two_loads_stop fresh = stop (run_calls two_loads fresh)"
    by (simp add: two_loads_stop_def run_calls_append)
  have t: "run_calls two_loads fresh =
      snd (loadJAR_try 2 (js ''game.Pong'') (Num 176) (Num 220) all_ok_again
             (run_calls first_load fresh))"
    by (simp add: two_loads_def run_calls_append loadJAR_def running_render_def)
  have u: "object_url_id all_ok_again = js ''b2''" by (simp add: all_ok_again_def)
  have 1: "at_most_one_live (trace (run_calls two_loads_stop fresh))"
    by (rule all [THEN conjunct1])
  have 2: "live_handles (trace (run_calls two_loads fresh)) = {blob_url (js ''b2'')}"
    unfolding t using one [THEN conjunct2, THEN conjunct2, THEN conjunct2, THEN conjunct1]
    by (simp only: u)
  have 3: "live_handles (trace (run_calls two_loads_stop fresh)) = {}"
    unfolding s
    by (rule two [THEN conjunct2, THEN conjunct2, THEN conjunct2, THEN conjunct2, THEN conjunct1])
  have 4: "jarUrlRef (run_calls two_loads_stop fresh) = None"
    unfolding s
    by (rule two [THEN conjunct2, THEN conjunct2, THEN conjunct2, THEN conjunct2, THEN conjunct2,
                  THEN conjunct1])
  have 5: "status (state (run_calls two_loads_stop fresh)) = Idle"
    unfolding s
    by (rule two [THEN conjunct2, THEN conjunct2, THEN conjunct2, THEN conjunct2, THEN conjunct2,
                  THEN conjunct2])
  have 6: "trace (run_calls two_loads_stop fresh) =
     [RevokeObjectURL (blob_url (js ''b2'')),
      CheerpjRunMain (js ''game.Pong'') (js ''/app/'' @ blob_url (js ''b2'') @ js '':lib/''),
      CheerpjCreateDisplay (Num 176) (Num 220) 1,
      CreateObjectURL 2 (blob_url (js ''b2'')),
      RevokeObjectURL (blob_url (js ''a1'')),
      CheerpjRunMain (js ''game.Snake'') (js ''/app/'' @ blob_url (js ''a1'') @ js '':lib/''),
      CheerpjCreateDisplay (Num 240) (Num 320) 1,
      CreateObjectURL 1 (blob_url (js ''a1'')),
      CheerpjInit,
      AppendScript CHEERPJ_CDN]"
    by (simp only: two_loads_stop_world world.simps)
  from 6 1 2 3 4 5 show ?thesis by (intro conjI)
qed

text \<open>
  Claim C8.  (1) Called by a closure that is not ready, \<open>loadJAR\<close> first runs \<open>initialize\<close>; when
  that returns \<open>false\<close>, \<open>loadJAR\<close> throws \<open>Error("CheerpJ not initialized")\<close> in the world
  \<open>initialize\<close> left (status error, error message set), and nothing of the load is done.
  (2) When it returns \<open>true\<close>, the load runs in the world \<open>initialize\<close> left.
  (3, 4) A failure of \<open>cheerpjCreateDisplay\<close> or of \<open>cheerpjRunMain\<close> is thrown on by the \<open>try\<close>
  block as the same value.  (5) Whenever the block throws, the status is error and the error
  message is that of the thrown value (\<open>Failed to load JAR\<close> for a value that is no \<open>Error\<close>).
  (6) Whenever \<open>loadJAR\<close> throws, the status is error and an error message is set.
  (7) Called by a ready closure, \<open>loadJAR\<close> is that block.  (8, 9) For every closure, ready or
  initialized by the call: when \<open>cheerpjCreateDisplay\<close> throws (a container being attached) or
  \<open>cheerpjRunMain\<close> rejects, \<open>loadJAR\<close> itself throws that same value to its caller, with the
  status error and the error message that of the value.
\<close>

theorem C8_loadJAR_failures:
  "(\<not> isReady c \<and> \<not> fst (initialize c env w) \<longrightarrow>
      loadJAR c jarBlob mainClass screenW screenH env w =
        (Inl (Error (js ''CheerpJ not initialized'')), snd (initialize c env w)) \<and>
      status (state (snd (loadJAR c jarBlob mainClass screenW screenH env w))) = Error_status \<and>
      error (state (snd (loadJAR c jarBlob mainClass screenW screenH env w))) \<noteq> None) \<and>
   (\<not> isReady c \<and> fst (initialize c env w) \<longrightarrow>
      loadJAR c jarBlob mainClass screenW screenH env w =
        loadJAR_try jarBlob mainClass screenW screenH env (snd (initialize c env w))) \<and>
   (containerRef w \<noteq> None \<and> createDisplay_result env = Inl err \<longrightarrow>
      fst (loadJAR_try jarBlob mainClass screenW screenH env w) = Inl err) \<and>
   ((containerRef w = None \<or> (\<exists>d. createDisplay_result env = Inr d)) \<and>
    runMain_result env = Some err \<longrightarrow>
      fst (loadJAR_try jarBlob mainClass screenW screenH env w) = Inl err) \<and>
   (fst (loadJAR_try jarBlob mainClass screenW screenH env w) = Inl err \<longrightarrow>
      status (state (snd (loadJAR_try jarBlob mainClass screenW screenH env w))) = Error_status \<and>
      error (state (snd (loadJAR_try jarBlob mainClass screenW screenH env w))) =
        Some (error_message err (js ''Failed to load JAR''))) \<and>
   (fst (loadJAR c jarBlob mainClass screenW screenH env w) = Inl err \<longrightarrow>
      status (state (snd (loadJAR c jarBlob mainClass screenW screenH env w))) = Error_status \<and>
      error (state (snd (loadJAR c jarBlob mainClass screenW screenH env w))) \<noteq> None) \<and>
   (isReady c \<longrightarrow>
      loadJAR c jarBlob mainClass screenW screenH env w =
        loadJAR_try jarBlob mainClass screenW screenH env w) \<and>
   ((isReady c \<or> fst (initialize c env w)) \<and>
    containerRef w \<noteq> None \<and> createDisplay_result env = Inl err \<longrightarrow>
      fst (loadJAR c jarBlob mainClass screenW screenH env w) = Inl err \<and>
      status (state (snd (loadJAR c jarBlob mainClass screenW screenH env w))) = Error_status \<and>
      error (state (snd (loadJAR c jarBlob mainClass screenW screenH env w))) =
        Some (error_message err (js ''Failed to load JAR''))) \<and>
   ((isReady c \<or> fst (initialize c env w)) \<and>
    (containerRef w = None \<or> (\<exists>d. createDisplay_result env = Inr d)) \<and>
    runMain_result env = Some err \<longrightarrow>
      fst (loadJAR c jarBlob mainClass screenW screenH env w) = Inl err \<and>
      status (state (snd (loadJAR c jarBlob mainClass screenW screenH env w))) = Error_status \<and>
      error (state (snd (loadJAR c jarBlob mainClass screenW screenH env w))) =
        Some (error_message err (js ''Failed to load JAR'')))"
proof (intro conjI impI)
  assume h: "\<not> isReady c \<and> \<not> fst (initialize c env w)"
  then show l: "loadJAR c jarBlob mainClass screenW screenH env w =
        (Inl (Error (js ''CheerpJ not initialized'')), snd (initialize c env w))"
    by (cases "initialize c env w") (simp add: loadJAR_def)
  from h initialize_failed_state [of c env w]
  show "status (state (snd (loadJAR c jarBlob mainClass screenW screenH env w))) = Error_status"
    and "error (state (snd (loadJAR c jarBlob mainClass screenW screenH env w))) \<noteq> None"
    unfolding l by simp_all
next
  assume "\<not> isReady c \<and> fst (initialize c env w)"
  then show "loadJAR c jarBlob mainClass screenW screenH env w =
        loadJAR_try jarBlob mainClass screenW screenH env (snd (initialize c env w))"
    by (cases "initialize c env w") (simp add: loadJAR_def)
next
  assume "containerRef w \<noteq> None \<and> createDisplay_result env = Inl err"
  then show "fst (loadJAR_try jarBlob mainClass screenW screenH env w) = Inl err"
    by (simp add: loadJAR_try_display_fails)
next
  assume "(containerRef w = None \<or> (\<exists>d. createDisplay_result env = Inr d)) \<and>
    runMain_result env = Some err"
  then show "fst (loadJAR_try jarBlob mainClass screenW screenH env w) = Inl err"
    by (simp add: loadJAR_try_run_fails)
next
  assume t: "fst (loadJAR_try jarBlob mainClass screenW screenH env w) = Inl err"
  from loadJAR_try_thrown [OF t]
  show "status (state (snd (loadJAR_try jarBlob mainClass screenW screenH env w))) = Error_status"
    and "error (state (snd (loadJAR_try jarBlob mainClass screenW screenH env w))) =
        Some (error_message err (js ''Failed to load JAR''))"
    by simp_all
next
  assume t: "fst (loadJAR c jarBlob mainClass screenW screenH env w) = Inl err"
  have "status (state (snd (loadJAR c jarBlob mainClass screenW screenH env w))) = Error_status \<and>
        error (state (snd (loadJAR c jarBlob mainClass screenW screenH env w))) \<noteq> None"
  proof (cases "\<not> isReady c \<and> \<not> fst (initialize c env w)")
    case True
    then have "loadJAR c jarBlob mainClass screenW screenH env w =
        (Inl (Error (js ''CheerpJ not initialized'')), snd (initialize c env w))"
      by (cases "initialize c env w") (simp add: loadJAR_def)
    with True initialize_failed_state [of c env w] show ?thesis by simp
  next
    case False
    then have "\<exists>w0. loadJAR c jarBlob mainClass screenW screenH env w =
        loadJAR_try jarBlob mainClass screenW screenH env w0"
      by (cases "initialize c env w"; cases "isReady c") (auto simp: loadJAR_def)
    then obtain w0 where e: "loadJAR c jarBlob mainClass screenW screenH env w =
        loadJAR_try jarBlob mainClass screenW screenH env w0" ..
    with t loadJAR_try_thrown [of jarBlob mainClass screenW screenH env w0 err]
    show ?thesis by simp
  qed
  then show "status (state (snd (loadJAR c jarBlob mainClass screenW screenH env w))) = Error_status"
    and "error (state (snd (loadJAR c jarBlob mainClass screenW screenH env w))) \<noteq> None"
    by simp_all
next
  assume "isReady c"
  then show "loadJAR c jarBlob mainClass screenW screenH env w =
        loadJAR_try jarBlob mainClass screenW screenH env w"
    by (rule loadJAR_ready)
next
  assume h: "(isReady c \<or> fst (initialize c env w)) \<and>
    containerRef w \<noteq> None \<and> createDisplay_result env = Inl err"
  then have "fst (loadJAR c jarBlob mainClass screenW screenH env w) = Inl err \<and>
     status (state (snd (loadJAR c jarBlob mainClass screenW screenH env w))) = Error_status \<and>
     error (state (snd (loadJAR c jarBlob mainClass screenW screenH env w))) =
       Some (error_message err (js ''Failed to load JAR''))"
    by (intro loadJAR_display_fails) simp_all
  then show "fst (loadJAR c jarBlob mainClass screenW screenH env w) = Inl err"
    and "status (state (snd (loadJAR c jarBlob mainClass screenW screenH env w))) = Error_status"
    and "error (state (snd (loadJAR c jarBlob mainClass screenW screenH env w))) =
        Some (error_message err (js ''Failed to load JAR''))"
    by simp_all
next
  assume h: "(isReady c \<or> fst (initialize c env w)) \<and>
    (containerRef w = None \<or> (\<exists>d. createDisplay_result env = Inr d)) \<and>
    runMain_result env = Some err"
  then have "fst (loadJAR c jarBlob mainClass screenW screenH env w) = Inl err \<and>
     status (state (snd (loadJAR c jarBlob mainClass screenW screenH env w))) = Error_status \<and>
     error (state (snd (loadJAR c jarBlob mainClass screenW screenH env w))) =
       Some (error_message err (js ''Failed to load JAR''))"
    by (intro loadJAR_run_fails) simp_all
  then show "fst (loadJAR c jarBlob mainClass screenW screenH env w) = Inl err"
    and "status (state (snd (loadJAR c jarBlob mainClass screenW screenH env w))) = Error_status"
    and "error (state (snd (loadJAR c jarBlob mainClass screenW screenH env w))) =
        Some (error_message err (js ''Failed to load JAR''))"
    by simp_all
qed

text \<open>
  C8 at a freshly mounted hook, for an engine whose \<open>cheerpjInit\<close> rejects, one whose
  \<open>cheerpjRunMain\<close> rejects, and one whose \<open>cheerpjCreateDisplay\<close> throws a value that is no
  \<open>Error\<close>; and at a running hook, for a second load by a ready closure whose
  \<open>cheerpjRunMain\<close> rejects.
\<close>

theorem C8_loadJAR_failures_witness:
  "fst (loadJAR first_render 1 (js ''game.Snake'') (Num 240) (Num 320) init_rejects fresh) =
     Inl (Error (js ''CheerpJ not initialized'')) \<and>
   snd (loadJAR first_render 1 (js ''game.Snake'') (Num 240) (Num 320) init_rejects fresh) =
     snd (initialize first_render init_rejects fresh) \<and>
   status (state (snd (loadJAR first_render 1 (js ''game.Snake'') (Num 240) (Num 320)
     init_rejects fresh))) = Error_status \<and>
   fst (loadJAR first_render 1 (js ''game.Snake'') (Num 240) (Num 320) run_rejects fresh) =
     Inl (Error (js ''no class'')) \<and>
   status (state (snd (loadJAR first_render 1 (js ''game.Snake'') (Num 240) (Num 320)
     run_rejects fresh))) = Error_status \<and>
   error (state (snd (loadJAR first_render 1 (js ''game.Snake'') (Num 240) (Num 320)
     run_rejects fresh))) = Some (js ''no class'') \<and>
   fst (loadJAR_try 1 (js ''game.Snake'') (Num 240) (Num 320) display_throws fresh) =
     Inl OtherThrown \<and>
   error (state (snd (loadJAR_try 1 (js ''game.Snake'') (Num 240) (Num 320) display_throws
     fresh))) = Some (js ''Failed to load JAR'') \<and>
   fst (loadJAR running_render 2 (js ''game.Pong'') (Num 176) (Num 220) run_rejects
     (run_calls first_load fresh)) = Inl (Error (js ''no class'')) \<and>
   status (state (snd (loadJAR running_render 2 (js ''game.Pong'') (Num 176) (Num 220) run_rejects
     (run_calls first_load fresh)))) = Error_status \<and>
   error (state (snd (loadJAR running_render 2 (js ''game.Pong'') (Num 176) (Num 220) run_rejects
     (run_calls first_load fresh)))) = Some (js ''no class'') \<and>
   fst (loadJAR first_render 1 (js ''game.Snake'') (Num 240) (Num 320) display_throws fresh) =
     Inl OtherThrown"
proof -
  let ?w1 = "snd (initialize first_render run_rejects fresh)"
  note a = C8_loadJAR_failures [of first_render init_rejects fresh 1 "js ''game.Snake''"
      "Num 240" "Num 320" OtherThrown]
  note b = C8_loadJAR_failures [of first_render run_rejects fresh 1 "js ''game.Snake''"
      "Num 240" "Num 320" "Error (js ''no class'')"]
  note c = C8_loadJAR_failures [of first_render run_rejects ?w1 1 "js ''game.Snake''"
      "Num 240" "Num 320" "Error (js ''no class'')"]
  note d = C8_loadJAR_failures [of first_render display_throws fresh 1 "js ''game.Snake''"
      "Num 240" "Num 320" OtherThrown]
  note e = C8_loadJAR_failures [of running_render run_rejects "run_calls first_load fresh" 2
      "js ''game.Pong''" "Num 176" "Num 220" "Error (js ''no class'')"]
  have ready: "isReady running_render" by (simp add: running_render_def)
  have shown: "\<exists>d. createDisplay_result run_rejects = Inr d"
    by (simp add: run_rejects_def)
  have init_dt: "fst (initialize first_render display_throws fresh)"
    by (simp add: render_def loadScript_def initialize_catch_def initialize_def setStatus_def
          setError_def setIsReady_def perform_def mount_def Let_def fresh_def first_render_def
          display_throws_def)
  have r: "createDisplay_result run_rejects = Inr 7"
    "runMain_result run_rejects = Some (Error (js ''no class''))"
    by (simp_all add: run_rejects_def)
  have t: "createDisplay_result display_throws = Inl OtherThrown"
    by (simp add: display_throws_def)
  from a first_render_not_ready fresh_init_rejects
  have 1: "loadJAR first_render 1 (js ''game.Snake'') (Num 240) (Num 320) init_rejects fresh =
        (Inl (Error (js ''CheerpJ not initialized'')), snd (initialize first_render init_rejects fresh))"
    and 2: "status (state (snd (loadJAR first_render 1 (js ''game.Snake'') (Num 240) (Num 320)
       init_rejects fresh))) = Error_status"
    by blast+
  from b first_render_not_ready fresh_init_accepts(1)
  have 3: "loadJAR first_render 1 (js ''game.Snake'') (Num 240) (Num 320) run_rejects fresh =
        loadJAR_try 1 (js ''game.Snake'') (Num 240) (Num 320) run_rejects ?w1"
    by blast
  from c r have 4: "fst (loadJAR_try 1 (js ''game.Snake'') (Num 240) (Num 320) run_rejects ?w1) =
      Inl (Error (js ''no class''))" by blast
  with c have 5: "status (state (snd (loadJAR_try 1 (js ''game.Snake'') (Num 240) (Num 320)
      run_rejects ?w1))) = Error_status"
    and 6: "error (state (snd (loadJAR_try 1 (js ''game.Snake'') (Num 240) (Num 320)
      run_rejects ?w1))) = Some (error_message (Error (js ''no class'')) (js ''Failed to load JAR''))"
    by blast+
  from d t fresh_fields(1)
  have 7: "fst (loadJAR_try 1 (js ''game.Snake'') (Num 240) (Num 320) display_throws fresh) =
      Inl OtherThrown" by simp
  with d have 8: "error (state (snd (loadJAR_try 1 (js ''game.Snake'') (Num 240) (Num 320)
      display_throws fresh))) = Some (error_message OtherThrown (js ''Failed to load JAR''))"
    by blast
  from e ready shown r(2)
  have 9: "fst (loadJAR running_render 2 (js ''game.Pong'') (Num 176) (Num 220) run_rejects
       (run_calls first_load fresh)) = Inl (Error (js ''no class''))"
    and 10: "status (state (snd (loadJAR running_render 2 (js ''game.Pong'') (Num 176) (Num 220)
       run_rejects (run_calls first_load fresh)))) = Error_status"
    and 11: "error (state (snd (loadJAR running_render 2 (js ''game.Pong'') (Num 176) (Num 220)
       run_rejects (run_calls first_load fresh)))) =
         Some (error_message (Error (js ''no class'')) (js ''Failed to load JAR''))"
    by blast+
  from d init_dt t fresh_fields(1)
  have 12: "fst (loadJAR first_render 1 (js ''game.Snake'') (Num 240) (Num 320) display_throws
      fresh) = Inl OtherThrown"
    by simp
  from 1 2 3 4 5 6 7 8 9 10 11 12 show ?thesis by (simp add: error_message_def)
qed

text \<open>
  Claim C9, as the code has it.  \<open>sendKeyEvent\<close> tests the status and the display element
  its closure captured.  Called with any key code and flag, by a closure whose status is
  not running or whose display element is null, it returns the world unchanged: nothing is
  dispatched and no state changes.  For the callback of the current render these are the
  current status and display element.
\<close>

theorem C9_sendKeyEvent_noop:
  "(status c \<noteq> Running \<or> displayElement c = None \<longrightarrow>
      sendKeyEvent c keyCode pressed w = w) \<and>
   (status (state w) \<noteq> Running \<or> displayElement (state w) = None \<longrightarrow>
      sendKeyEvent (render w) keyCode pressed w = w \<and>
      trace (sendKeyEvent (render w) keyCode pressed w) = trace w)"
  by (auto simp: sendKeyEvent_def render_def)

text \<open>
  C9 at a freshly mounted hook (status idle) and after a stop.
\<close>

theorem C9_sendKeyEvent_noop_witness:
  "sendKeyEvent first_render (- 5) True fresh = fresh \<and>
   sendKeyEvent (render (run_calls two_loads_stop fresh)) 53 False
     (run_calls two_loads_stop fresh) = run_calls two_loads_stop fresh \<and>
   trace (sendKeyEvent (render (run_calls two_loads_stop fresh)) 53 False
     (run_calls two_loads_stop fresh)) = trace (run_calls two_loads_stop fresh)"
proof -
  have a: "status first_render \<noteq> Running \<or> displayElement first_render = None"
    by (simp add: first_render_def)
  have b: "status (state (run_calls two_loads_stop fresh)) \<noteq> Running \<or>
           displayElement (state (run_calls two_loads_stop fresh)) = None"
    by (simp add: two_loads_stop_world)
  from C9_sendKeyEvent_noop [of first_render "- 5" True fresh] a
  have "sendKeyEvent first_render (- 5) True fresh = fresh" by blast
  moreover
  from C9_sendKeyEvent_noop [of first_render 53 False "run_calls two_loads_stop fresh"] b
  have "sendKeyEvent (render (run_calls two_loads_stop fresh)) 53 False
          (run_calls two_loads_stop fresh) = run_calls two_loads_stop fresh \<and>
        trace (sendKeyEvent (render (run_calls two_loads_stop fresh)) 53 False
          (run_calls two_loads_stop fresh)) = trace (run_calls two_loads_stop fresh)"
    by blast
  ultimately show ?thesis by blast
qed

text \<open>
  C9 as the specification words it (no effect whenever the adapter's status is not running or
  no display surface exists) fails for the callback of a render in which the game was running,
  called after \<open>stop\<close>: the status is idle and the display element null, and the event is
  dispatched to the element the closure captured.
\<close>

theorem C9_counterexample:
  "status (render (run_calls two_loads fresh)) = Running \<and>
   displayElement (render (run_calls two_loads fresh)) = Some 8 \<and>
   status (state (stop (run_calls two_loads fresh))) = Idle \<and>
   displayElement (state (stop (run_calls two_loads fresh))) = None \<and>
   trace (sendKeyEvent (render (run_calls two_loads fresh)) 53 True
            (stop (run_calls two_loads fresh))) =
     DispatchEvent 8 (js ''keydown'') 53 # trace (stop (run_calls two_loads fresh)) \<and>
   sendKeyEvent (render (run_calls two_loads fresh)) 53 True (stop (run_calls two_loads fresh)) \<noteq>
     stop (run_calls two_loads fresh)"
proof -
  have c: "status (render (run_calls two_loads fresh)) = Running"
    "displayElement (render (run_calls two_loads fresh)) = Some 8"
    by (simp_all add: render_def two_loads_world)
  have s: "status (state (stop (run_calls two_loads fresh))) = Idle"
    "displayElement (state (stop (run_calls two_loads fresh))) = None"
    by (simp_all add: stop_def setStatus_def setDisplayElement_def Let_def)
  have t: "trace (sendKeyEvent (render (run_calls two_loads fresh)) 53 True
            (stop (run_calls two_loads fresh))) =
     DispatchEvent 8 (js ''keydown'') 53 # trace (stop (run_calls two_loads fresh))"
    by (simp add: sendKeyEvent_def c perform_def Let_def)
  have "sendKeyEvent (render (run_calls two_loads fresh)) 53 True (stop (run_calls two_loads fresh)) \<noteq>
     stop (run_calls two_loads fresh)"
  proof
    assume "sendKeyEvent (render (run_calls two_loads fresh)) 53 True
        (stop (run_calls two_loads fresh)) = stop (run_calls two_loads fresh)"
    then have "trace (sendKeyEvent (render (run_calls two_loads fresh)) 53 True
        (stop (run_calls two_loads fresh))) = trace (stop (run_calls two_loads fresh))" by simp
    then show False unfolding t by simp
  qed
  with c s t show ?thesis by simp
qed

end
